theory Spec2Isabelle
  imports Complex_Main "HOL-Library.Sublist"
begin

section \<open>Values, pointers and the store\<close>

text \<open>
  The physics controller of \<^verbatim>\<open>PhysicsController.cpp\<close> owns a dynamics world, a registry
  of collision shapes and a registry of constraints. The embedding passes one state
  around: the controller's fields, the store of heap objects they point into, and a
  log of removals and deletions, in the order in which they happen.

  Scalars (\<^verbatim>\<open>float\<close>, \<^verbatim>\<open>btScalar\<close>) are modelled by \<^typ>\<open>real\<close>: the theorems are
  about the formulas the code evaluates, in exact arithmetic, not about rounding.
  A pointer is an \<^typ>\<open>nat option\<close>; \<open>None\<close> is \<^verbatim>\<open>NULL\<close>.
\<close>

type_synonym addr = nat
type_synonym ptr = "addr option"

datatype Vector3 = Vector3 (v3x: real) (v3y: real) (v3z: real)

datatype btVector3 = btVector3 (btx: real) (bty: real) (btz: real)

datatype Quaternion = Quaternion real real real real

datatype ConstraintKind = Fixed | Generic | Hinge | Socket | Spring

text \<open>
  The objects of the store. A \<open>TypedConstraint\<close> is the engine's native constraint
  between two bodies; a \<open>PhysicsConstraint\<close> is the controller-level wrapper, which
  keeps the two bodies, the offsets of each side and the pointer \<^verbatim>\<open>_constraint\<close> to its
  native constraint (the last argument).
\<close>

datatype obj =
    DefaultCollisionConfiguration
  | CollisionDispatcher ptr
  | DbvtBroadphase
  | SequentialImpulseConstraintSolver
  | BoxShape btVector3
  | SphereShape real
  | TypedConstraint ConstraintKind ptr ptr
  | PhysicsConstraint ConstraintKind ptr "Quaternion option" Vector3 ptr "Quaternion option" Vector3 ptr
  | CollisionObject
  | RigidBody ptr
  | MotionState

datatype event =
    RemovedConstraint ptr
  | RemovedCollisionObject ptr
  | Deleted addr
  | DeletedWorld

datatype error = NullDereference | InvalidPointer | IndexOutOfRange

section \<open>The dynamics world\<close>

text \<open>
  The world is the engine's \<^verbatim>\<open>btDiscreteDynamicsWorld\<close>, an external collaborator of the
  controller whose code is not part of the controller's source; its operations are
  modelled after the engine's documented behaviour. The model keeps what the controller reads and writes: the gravity, the
  array of native constraints, the array of collision objects, and the stepping clock.
  \<open>m_steps\<close> counts the internal fixed steps performed so far and \<open>m_simulated\<close> the
  simulated time they add up to. The arrays behave as the engine's array container:
  \<^verbatim>\<open>push_back\<close> appends, \<^verbatim>\<open>remove\<close> finds the first occurrence by a linear search, swaps
  it with the last element and pops.
\<close>

record btDiscreteDynamicsWorld =
  m_dispatcher :: ptr
  m_pairCache :: ptr
  m_constraintSolver :: ptr
  m_collisionConfiguration :: ptr
  m_gravity :: btVector3
  m_constraints :: "ptr list"
  m_collisionObjects :: "ptr list"
  m_localTime :: real
  m_steps :: nat
  m_simulated :: real

fun findLinearSearch :: "'a \<Rightarrow> 'a list \<Rightarrow> nat" where
  "findLinearSearch key [] = 0"
| "findLinearSearch key (x # xs) = (if x = key then 0 else Suc (findLinearSearch key xs))"

definition array_remove :: "'a \<Rightarrow> 'a list \<Rightarrow> 'a list" where
  "array_remove key xs =
     (let findIndex = findLinearSearch key xs
      in if findIndex < length xs then butlast (xs[findIndex := last xs]) else xs)"

definition new_btDiscreteDynamicsWorld :: "ptr \<Rightarrow> ptr \<Rightarrow> ptr \<Rightarrow> ptr \<Rightarrow> btDiscreteDynamicsWorld" where
  "new_btDiscreteDynamicsWorld dispatcher pairCache constraintSolver collisionConfiguration =
     \<lparr> m_dispatcher = dispatcher, m_pairCache = pairCache,
       m_constraintSolver = constraintSolver, m_collisionConfiguration = collisionConfiguration,
       m_gravity = btVector3 0 (- 10) 0, m_constraints = [], m_collisionObjects = [],
       m_localTime = 0, m_steps = 0, m_simulated = 0 \<rparr>"

definition world_setGravity :: "btVector3 \<Rightarrow> btDiscreteDynamicsWorld \<Rightarrow> btDiscreteDynamicsWorld" where
  "world_setGravity g w = w\<lparr>m_gravity := g\<rparr>"

definition world_addConstraint :: "ptr \<Rightarrow> btDiscreteDynamicsWorld \<Rightarrow> btDiscreteDynamicsWorld" where
  "world_addConstraint c w = w\<lparr>m_constraints := m_constraints w @ [c]\<rparr>"

definition world_removeConstraint :: "ptr \<Rightarrow> btDiscreteDynamicsWorld \<Rightarrow> btDiscreteDynamicsWorld" where
  "world_removeConstraint c w = w\<lparr>m_constraints := array_remove c (m_constraints w)\<rparr>"

definition getNumConstraints :: "btDiscreteDynamicsWorld \<Rightarrow> nat" where
  "getNumConstraints w = length (m_constraints w)"

definition getConstraint :: "btDiscreteDynamicsWorld \<Rightarrow> nat \<Rightarrow> ptr option" where
  "getConstraint w i = (if i < length (m_constraints w) then Some (m_constraints w ! i) else None)"

definition getNumCollisionObjects :: "btDiscreteDynamicsWorld \<Rightarrow> nat" where
  "getNumCollisionObjects w = length (m_collisionObjects w)"

definition getCollisionObject :: "btDiscreteDynamicsWorld \<Rightarrow> nat \<Rightarrow> ptr option" where
  "getCollisionObject w i =
     (if i < length (m_collisionObjects w) then Some (m_collisionObjects w ! i) else None)"

definition world_removeCollisionObject :: "ptr \<Rightarrow> btDiscreteDynamicsWorld \<Rightarrow> btDiscreteDynamicsWorld" where
  "world_removeCollisionObject obj w = w\<lparr>m_collisionObjects := array_remove obj (m_collisionObjects w)\<rparr>"

text \<open>
  Stepping. With a positive cap the world adds the time step to its local clock, takes
  as many whole fixed steps out of it as fit, and performs at most \<open>maxSubSteps\<close> of
  them; with cap zero it performs one step of the whole time step.
\<close>

definition internalSingleStepSimulation :: "real \<Rightarrow> btDiscreteDynamicsWorld \<Rightarrow> btDiscreteDynamicsWorld" where
  "internalSingleStepSimulation timeStep w =
     w\<lparr>m_steps := Suc (m_steps w), m_simulated := m_simulated w + timeStep\<rparr>"

fun subSteps :: "nat \<Rightarrow> real \<Rightarrow> btDiscreteDynamicsWorld \<Rightarrow> btDiscreteDynamicsWorld" where
  "subSteps 0 fixedTimeStep w = w"
| "subSteps (Suc n) fixedTimeStep w = subSteps n fixedTimeStep (internalSingleStepSimulation fixedTimeStep w)"

definition to_int :: "real \<Rightarrow> int" where
  "to_int r = (if 0 \<le> r then \<lfloor>r\<rfloor> else \<lceil>r\<rceil>)"

definition numSimulationSubSteps :: "real \<Rightarrow> real \<Rightarrow> btDiscreteDynamicsWorld \<Rightarrow> int" where
  "numSimulationSubSteps timeStep fixedTimeStep w =
     (if fixedTimeStep \<le> m_localTime w + timeStep
      then to_int ((m_localTime w + timeStep) / fixedTimeStep) else 0)"

definition stepSimulation :: "real \<Rightarrow> int \<Rightarrow> real \<Rightarrow> btDiscreteDynamicsWorld \<Rightarrow> btDiscreteDynamicsWorld" where
  "stepSimulation timeStep maxSubSteps fixedTimeStep w =
     (if maxSubSteps \<noteq> 0 then
        let n = numSimulationSubSteps timeStep fixedTimeStep w;
            w1 = w\<lparr>m_localTime := m_localTime w + timeStep - real_of_int n * fixedTimeStep\<rparr>
        in if n \<noteq> 0
           then let clampedSimulationSteps = (if n > maxSubSteps then maxSubSteps else n)
                in subSteps (nat clampedSimulationSteps) fixedTimeStep w1
           else w1
      else
        let w1 = w\<lparr>m_localTime := timeStep\<rparr>
        in if timeStep = 0 then w1 else subSteps 1 timeStep w1)"

section \<open>The controller\<close>

record PhysicsController =
  gravity :: btVector3
  collisionConfiguration :: ptr
  dispatcher :: ptr
  overlappingPairCache :: ptr
  solver :: ptr
  world :: "btDiscreteDynamicsWorld option"
  shapes :: "ptr list"
  constraints :: "ptr list"
  heap :: "addr \<rightharpoonup> obj"
  next_addr :: addr
  trace :: "event list"

text \<open>
  The fields are those of the class, without the leading underscore.
  \<open>world\<close> is the owning pointer \<^verbatim>\<open>_world\<close> together with the world it points to:
  \<open>None\<close> is \<^verbatim>\<open>NULL\<close>. \<open>heap\<close>, \<open>next_addr\<close> and \<open>trace\<close> are the store: \<^verbatim>\<open>new\<close> takes the next
  address, \<^verbatim>\<open>delete\<close> frees the address and logs it, \<^verbatim>\<open>delete NULL\<close> does nothing.
  Dereferencing a null pointer is the error \<open>NullDereference\<close>; reading or freeing
  through a pointer to no live object of the expected class is \<open>InvalidPointer\<close>.
\<close>

definition new :: "obj \<Rightarrow> PhysicsController \<Rightarrow> addr \<times> PhysicsController" where
  "new ob s = (next_addr s, s\<lparr>heap := (heap s)(next_addr s \<mapsto> ob), next_addr := Suc (next_addr s)\<rparr>)"

definition delete :: "ptr \<Rightarrow> PhysicsController \<Rightarrow> error + PhysicsController" where
  "delete p s =
     (case p of None \<Rightarrow> Inr s
      | Some a \<Rightarrow>
          (case heap s a of
             None \<Rightarrow> Inl InvalidPointer
           | Some ob \<Rightarrow> Inr (s\<lparr>heap := (heap s)(a := None), trace := trace s @ [Deleted a]\<rparr>)))"

text \<open>The constructor: default gravity is 9.8 along the negative Y axis, every pointer is null.\<close>

definition PhysicsController_new :: PhysicsController where
  "PhysicsController_new =
     \<lparr> gravity = btVector3 0 (- 98 / 10) 0, collisionConfiguration = None, dispatcher = None,
       overlappingPairCache = None, solver = None, world = None, shapes = [], constraints = [],
       heap = Map.empty, next_addr = 0, trace = [] \<rparr>"

definition setGravity :: "Vector3 \<Rightarrow> PhysicsController \<Rightarrow> PhysicsController" where
  "setGravity g s =
     (let s1 = s\<lparr>gravity := btVector3 (v3x g) (v3y g) (v3z g)\<rparr>
      in case world s1 of
           None \<Rightarrow> s1
         | Some w \<Rightarrow> s1\<lparr>world := Some (world_setGravity (gravity s1) w)\<rparr>)"

definition initialize :: "PhysicsController \<Rightarrow> PhysicsController" where
  "initialize s =
     (let (cc, s1) = new DefaultCollisionConfiguration s;
          s1 = s1\<lparr>collisionConfiguration := Some cc\<rparr>;
          (d, s2) = new (CollisionDispatcher (collisionConfiguration s1)) s1;
          s2 = s2\<lparr>dispatcher := Some d\<rparr>;
          (pc, s3) = new DbvtBroadphase s2;
          s3 = s3\<lparr>overlappingPairCache := Some pc\<rparr>;
          (sv, s4) = new SequentialImpulseConstraintSolver s3;
          s4 = s4\<lparr>solver := Some sv\<rparr>;
          w = new_btDiscreteDynamicsWorld (dispatcher s4) (overlappingPairCache s4) (solver s4)
                (collisionConfiguration s4)
      in s4\<lparr>world := Some (world_setGravity (gravity s4) w)\<rparr>)"

subsection \<open>Shapes\<close>

text \<open>
  \<^verbatim>\<open>abs\<close> in \<^verbatim>\<open>getBox\<close> is applied to a difference of scalars; it is taken to be the
  absolute value of that scalar (the overload for floating-point arguments, from headers
  outside this file), which the specification writes as \<open>|max - min|\<close>.
\<close>

definition getBox :: "Vector3 \<Rightarrow> Vector3 \<Rightarrow> btVector3 \<Rightarrow> PhysicsController \<Rightarrow> ptr \<times> PhysicsController" where
  "getBox minv maxv scale s =
     (let halfExtents = btVector3 (btx scale * 0.5 * \<bar>v3x maxv - v3x minv\<bar>)
                                  (bty scale * 0.5 * \<bar>v3y maxv - v3y minv\<bar>)
                                  (btz scale * 0.5 * \<bar>v3z maxv - v3z minv\<bar>);
          (box, s1) = new (BoxShape halfExtents) s
      in (Some box, s1\<lparr>shapes := shapes s1 @ [Some box]\<rparr>))"

definition getSphere :: "real \<Rightarrow> btVector3 \<Rightarrow> PhysicsController \<Rightarrow> ptr \<times> PhysicsController" where
  "getSphere radius scale s =
     (let uniformScale = btx scale;
          uniformScale = (if uniformScale < bty scale then bty scale else uniformScale);
          uniformScale = (if uniformScale < btz scale then btz scale else uniformScale);
          (sphere, s1) = new (SphereShape (uniformScale * radius)) s
      in (Some sphere, s1\<lparr>shapes := shapes s1 @ [Some sphere]\<rparr>))"

text \<open>
  The index format of a mesh is declared elsewhere; the function does not look at it,
  so it is a type parameter here.
\<close>

definition getTriangleMesh :: "ptr \<Rightarrow> int \<Rightarrow> ptr \<Rightarrow> 'fmt \<Rightarrow> PhysicsController \<Rightarrow> ptr \<times> PhysicsController" where
  "getTriangleMesh vertexData vertexPositionStride indexData indexFormat s = (None, s)"

definition getHeightfield :: "ptr \<Rightarrow> int \<Rightarrow> int \<Rightarrow> PhysicsController \<Rightarrow> ptr \<times> PhysicsController" where
  "getHeightfield data width height s = (None, s)"

subsection \<open>Constraints\<close>

text \<open>
  Modelled from the spec: the constructors of the five constraint classes are declared
  outside this file. Each "constructs the typed constraint value from the two bodies and
  their per-side offset transforms": it allocates the native constraint of its kind
  between the two bodies and the wrapper that keeps the arguments and the pointer to
  the native constraint. The socket constraint has no rotation offsets.
\<close>

definition new_PhysicsConstraint ::
  "ConstraintKind \<Rightarrow> ptr \<Rightarrow> Quaternion option \<Rightarrow> Vector3 \<Rightarrow> ptr \<Rightarrow> Quaternion option \<Rightarrow> Vector3
     \<Rightarrow> PhysicsController \<Rightarrow> addr \<times> PhysicsController" where
  "new_PhysicsConstraint kind a rotationOffsetA translationOffsetA b rotationOffsetB translationOffsetB s =
     (let (native, s1) = new (TypedConstraint kind a b) s
      in new (PhysicsConstraint kind a rotationOffsetA translationOffsetA
                b rotationOffsetB translationOffsetB (Some native)) s1)"

text \<open>
  Modelled from the spec: the destructor of a constraint wrapper is declared outside
  this file. It "destroys the wrapper/bookkeeping object" only; the native half is
  destroyed by the controller.
\<close>

definition delete_PhysicsConstraint :: "ptr \<Rightarrow> PhysicsController \<Rightarrow> error + PhysicsController" where
  "delete_PhysicsConstraint p s = delete p s"

text \<open>The read \<^verbatim>\<open>constraint->_constraint\<close>.\<close>

definition constraint_native :: "PhysicsController \<Rightarrow> ptr \<Rightarrow> error + ptr" where
  "constraint_native s constraint =
     (case constraint of
        None \<Rightarrow> Inl NullDereference
      | Some a \<Rightarrow>
          (case heap s a of
             Some (PhysicsConstraint kind bodyA rotA transA bodyB rotB transB native) \<Rightarrow> Inr native
           | _ \<Rightarrow> Inl InvalidPointer))"

definition addConstraint :: "ptr \<Rightarrow> PhysicsController \<Rightarrow> error + PhysicsController" where
  "addConstraint constraint s =
     (case world s of
        None \<Rightarrow> Inl NullDereference
      | Some w \<Rightarrow>
          (case constraint_native s constraint of
             Inl e \<Rightarrow> Inl e
           | Inr native \<Rightarrow>
               Inr (s\<lparr>world := Some (world_addConstraint native w),
                      constraints := constraints s @ [constraint]\<rparr>)))"

definition createFixedConstraint ::
  "ptr \<Rightarrow> Quaternion \<Rightarrow> Vector3 \<Rightarrow> ptr \<Rightarrow> Quaternion \<Rightarrow> Vector3
     \<Rightarrow> PhysicsController \<Rightarrow> error + ptr \<times> PhysicsController" where
  "createFixedConstraint a rotationOffsetA translationOffsetA b rotationOffsetB translationOffsetB s =
     (let (constraint, s1) = new_PhysicsConstraint Fixed a (Some rotationOffsetA) translationOffsetA
                                b (Some rotationOffsetB) translationOffsetB s
      in case addConstraint (Some constraint) s1 of
           Inl e \<Rightarrow> Inl e
         | Inr s2 \<Rightarrow> Inr (Some constraint, s2))"

definition createGenericConstraint ::
  "ptr \<Rightarrow> Quaternion \<Rightarrow> Vector3 \<Rightarrow> ptr \<Rightarrow> Quaternion \<Rightarrow> Vector3
     \<Rightarrow> PhysicsController \<Rightarrow> error + ptr \<times> PhysicsController" where
  "createGenericConstraint a rotationOffsetA translationOffsetA b rotationOffsetB translationOffsetB s =
     (let (constraint, s1) = new_PhysicsConstraint Generic a (Some rotationOffsetA) translationOffsetA
                                b (Some rotationOffsetB) translationOffsetB s
      in case addConstraint (Some constraint) s1 of
           Inl e \<Rightarrow> Inl e
         | Inr s2 \<Rightarrow> Inr (Some constraint, s2))"

definition createHingeConstraint ::
  "ptr \<Rightarrow> Quaternion \<Rightarrow> Vector3 \<Rightarrow> ptr \<Rightarrow> Quaternion \<Rightarrow> Vector3
     \<Rightarrow> PhysicsController \<Rightarrow> error + ptr \<times> PhysicsController" where
  "createHingeConstraint a rotationOffsetA translationOffsetA b rotationOffsetB translationOffsetB s =
     (let (constraint, s1) = new_PhysicsConstraint Hinge a (Some rotationOffsetA) translationOffsetA
                                b (Some rotationOffsetB) translationOffsetB s
      in case addConstraint (Some constraint) s1 of
           Inl e \<Rightarrow> Inl e
         | Inr s2 \<Rightarrow> Inr (Some constraint, s2))"

definition createSocketConstraint ::
  "ptr \<Rightarrow> Vector3 \<Rightarrow> ptr \<Rightarrow> Vector3 \<Rightarrow> PhysicsController \<Rightarrow> error + ptr \<times> PhysicsController" where
  "createSocketConstraint a translationOffsetA b translationOffsetB s =
     (let (constraint, s1) = new_PhysicsConstraint Socket a None translationOffsetA
                                b None translationOffsetB s
      in case addConstraint (Some constraint) s1 of
           Inl e \<Rightarrow> Inl e
         | Inr s2 \<Rightarrow> Inr (Some constraint, s2))"

definition createSpringConstraint ::
  "ptr \<Rightarrow> Quaternion \<Rightarrow> Vector3 \<Rightarrow> ptr \<Rightarrow> Quaternion \<Rightarrow> Vector3
     \<Rightarrow> PhysicsController \<Rightarrow> error + ptr \<times> PhysicsController" where
  "createSpringConstraint a rotationOffsetA translationOffsetA b rotationOffsetB translationOffsetB s =
     (let (constraint, s1) = new_PhysicsConstraint Spring a (Some rotationOffsetA) translationOffsetA
                                b (Some rotationOffsetB) translationOffsetB s
      in case addConstraint (Some constraint) s1 of
           Inl e \<Rightarrow> Inl e
         | Inr s2 \<Rightarrow> Inr (Some constraint, s2))"

subsection \<open>Stepping\<close>

text \<open>
  The elapsed time is a \<^verbatim>\<open>long\<close> of milliseconds; it is only converted to a scalar, so
  it is an \<^typ>\<open>int\<close> here. The fixed time step is the engine's default, one sixtieth
  of a second.
\<close>

definition update :: "int \<Rightarrow> PhysicsController \<Rightarrow> error + PhysicsController" where
  "update elapsedTime s =
     (case world s of
        None \<Rightarrow> Inl NullDereference
      | Some w \<Rightarrow> Inr (s\<lparr>world := Some (stepSimulation (real_of_int elapsedTime * 0.001) 10 (1 / 60) w)\<rparr>))"

subsection \<open>Teardown\<close>

text \<open>
  The first loop of \<^verbatim>\<open>finalize\<close> runs \<^verbatim>\<open>i\<close> from the number of constraints minus one down
  to zero; the argument of the loop function is \<^verbatim>\<open>i + 1\<close>.
\<close>

fun removeConstraints_loop :: "nat \<Rightarrow> PhysicsController \<Rightarrow> error + PhysicsController" where
  "removeConstraints_loop 0 s = Inr s"
| "removeConstraints_loop (Suc i) s =
     (case world s of
        None \<Rightarrow> Inl NullDereference
      | Some w \<Rightarrow>
          (case getConstraint w i of
             None \<Rightarrow> Inl IndexOutOfRange
           | Some constraint \<Rightarrow>
               (case delete constraint
                       (s\<lparr>world := Some (world_removeConstraint constraint w),
                          trace := trace s @ [RemovedConstraint constraint]\<rparr>) of
                  Inl e \<Rightarrow> Inl e
                | Inr s1 \<Rightarrow> removeConstraints_loop i s1)))"

definition removeConstraints :: "PhysicsController \<Rightarrow> error + PhysicsController" where
  "removeConstraints s =
     (case world s of
        None \<Rightarrow> Inl NullDereference
      | Some w \<Rightarrow> removeConstraints_loop (getNumConstraints w) s)"

function deleteConstraints_loop :: "nat \<Rightarrow> PhysicsController \<Rightarrow> error + PhysicsController" where
  "deleteConstraints_loop i s =
     (if i < length (constraints s)
      then (case delete_PhysicsConstraint (constraints s ! i) s of
              Inl e \<Rightarrow> Inl e
            | Inr s1 \<Rightarrow> deleteConstraints_loop (Suc i) s1)
      else Inr s)"
  by pat_completeness auto
termination
  by (relation "measure (\<lambda>(i, s). length (constraints s) - i)")
     (auto simp: delete_PhysicsConstraint_def delete_def split: option.splits)

text \<open>
  The motion state that the third loop deletes: that of the object if the object is a
  rigid body (\<^verbatim>\<open>upcast\<close> reads the object's type), null otherwise.
\<close>

definition motionState_of :: "PhysicsController \<Rightarrow> ptr \<Rightarrow> error + ptr" where
  "motionState_of s obj =
     (case obj of
        None \<Rightarrow> Inl NullDereference
      | Some a \<Rightarrow>
          (case heap s a of
             Some (RigidBody motionState) \<Rightarrow> Inr motionState
           | Some CollisionObject \<Rightarrow> Inr None
           | _ \<Rightarrow> Inl InvalidPointer))"

fun removeCollisionObjects_loop :: "nat \<Rightarrow> PhysicsController \<Rightarrow> error + PhysicsController" where
  "removeCollisionObjects_loop 0 s = Inr s"
| "removeCollisionObjects_loop (Suc i) s =
     (case world s of
        None \<Rightarrow> Inl NullDereference
      | Some w \<Rightarrow>
          (case getCollisionObject w i of
             None \<Rightarrow> Inl IndexOutOfRange
           | Some obj \<Rightarrow>
               (case motionState_of s obj of
                  Inl e \<Rightarrow> Inl e
                | Inr motionState \<Rightarrow>
                    (case delete motionState s of
                       Inl e \<Rightarrow> Inl e
                     | Inr s1 \<Rightarrow>
                         (case delete obj
                                 (s1\<lparr>world := Some (world_removeCollisionObject obj w),
                                     trace := trace s1 @ [RemovedCollisionObject obj]\<rparr>) of
                            Inl e \<Rightarrow> Inl e
                          | Inr s2 \<Rightarrow> removeCollisionObjects_loop i s2)))))"

definition removeCollisionObjects :: "PhysicsController \<Rightarrow> error + PhysicsController" where
  "removeCollisionObjects s =
     (case world s of
        None \<Rightarrow> Inl NullDereference
      | Some w \<Rightarrow> removeCollisionObjects_loop (getNumCollisionObjects w) s)"

function deleteShapes_loop :: "nat \<Rightarrow> PhysicsController \<Rightarrow> error + PhysicsController" where
  "deleteShapes_loop i s =
     (if i < length (shapes s)
      then (let shape = shapes s ! i
            in case delete shape (s\<lparr>shapes := (shapes s)[i := None]\<rparr>) of
                 Inl e \<Rightarrow> Inl e
               | Inr s1 \<Rightarrow> deleteShapes_loop (Suc i) s1)
      else Inr s)"
  by pat_completeness auto
termination
  by (relation "measure (\<lambda>(i, s). length (shapes s) - i)")
     (auto simp: delete_def split: option.splits)

declare deleteConstraints_loop.simps [simp del]
declare deleteShapes_loop.simps [simp del]

definition deleteShapes :: "PhysicsController \<Rightarrow> error + PhysicsController" where
  "deleteShapes s =
     (case deleteShapes_loop 0 s of
        Inl e \<Rightarrow> Inl e
      | Inr s1 \<Rightarrow> Inr (s1\<lparr>shapes := []\<rparr>))"

definition deleteWorld :: "PhysicsController \<Rightarrow> error + PhysicsController" where
  "deleteWorld s =
     (let s0 = (case world s of None \<Rightarrow> s | Some w \<Rightarrow> s\<lparr>trace := trace s @ [DeletedWorld]\<rparr>);
          s0 = s0\<lparr>world := None\<rparr>
      in case delete (solver s0) s0 of
           Inl e \<Rightarrow> Inl e
         | Inr s1 \<Rightarrow>
             (case delete (overlappingPairCache s1) (s1\<lparr>solver := None\<rparr>) of
                Inl e \<Rightarrow> Inl e
              | Inr s2 \<Rightarrow>
                  (case delete (dispatcher s2) (s2\<lparr>overlappingPairCache := None\<rparr>) of
                     Inl e \<Rightarrow> Inl e
                   | Inr s3 \<Rightarrow>
                       (case delete (collisionConfiguration s3) (s3\<lparr>dispatcher := None\<rparr>) of
                          Inl e \<Rightarrow> Inl e
                        | Inr s4 \<Rightarrow> Inr (s4\<lparr>collisionConfiguration := None\<rparr>)))))"

definition finalize :: "PhysicsController \<Rightarrow> error + PhysicsController" where
  "finalize s =
     (case removeConstraints s of
        Inl e \<Rightarrow> Inl e
      | Inr s1 \<Rightarrow>
          (case deleteConstraints_loop 0 s1 of
             Inl e \<Rightarrow> Inl e
           | Inr s2 \<Rightarrow>
               (case removeCollisionObjects s2 of
                  Inl e \<Rightarrow> Inl e
                | Inr s3 \<Rightarrow>
                    (case deleteShapes s3 of
                       Inl e \<Rightarrow> Inl e
                     | Inr s4 \<Rightarrow> deleteWorld s4))))"

section \<open>Notions of the specification\<close>

text \<open>The object a pointer points to, if any.\<close>

definition deref :: "PhysicsController \<Rightarrow> ptr \<Rightarrow> obj option" where
  "deref s p = (case p of None \<Rightarrow> None | Some a \<Rightarrow> heap s a)"

text \<open>
  What the teardown of one native constraint leaves in the trace: its removal from the
  world, then its deletion.
\<close>

definition teardown_events :: "ptr \<Rightarrow> event list" where
  "teardown_events c = RemovedConstraint c # (case c of None \<Rightarrow> [] | Some a \<Rightarrow> [Deleted a])"

text \<open>
  The states of the first loop of \<^verbatim>\<open>finalize\<close>, written from the state \<open>s\<close> and the world \<open>w\<close>
  it starts in. \<open>freed cs h\<close> is the store \<open>h\<close> without the objects that the pointers \<open>cs\<close>
  point to. \<open>torn_down s w xs ys\<close> is the state in which the constraints \<open>ys\<close> have been
  removed from the world and deleted, in reverse order, and the constraints \<open>xs\<close> are
  still registered in the world. A pointer is \<open>live\<close> when it is null or points to an
  object of the store.
\<close>

definition freed :: "ptr list \<Rightarrow> (addr \<rightharpoonup> obj) \<Rightarrow> (addr \<rightharpoonup> obj)" where
  "freed cs h = (\<lambda>a. if Some a \<in> set cs then None else h a)"

definition torn_down ::
  "PhysicsController \<Rightarrow> btDiscreteDynamicsWorld \<Rightarrow> ptr list \<Rightarrow> ptr list \<Rightarrow> PhysicsController" where
  "torn_down s w xs ys =
     s\<lparr>world := Some (w\<lparr>m_constraints := xs\<rparr>),
       heap := freed ys (heap s),
       trace := trace s @ concat (map teardown_events (rev ys))\<rparr>"

definition live :: "PhysicsController \<Rightarrow> ptr \<Rightarrow> bool" where
  "live s p = (case p of None \<Rightarrow> True | Some a \<Rightarrow> heap s a \<noteq> None)"

text \<open>
  The outcome that the specification gives for each of the five creation operations on
  a live world \<open>w\<close>: the native constraint and the wrapper are new objects of the
  store, the native constraint is appended to the world's constraints, the wrapper is
  appended to the controller's constraints and returned, and nothing else changes.
\<close>

definition spec_registration ::
  "ConstraintKind \<Rightarrow> ptr \<Rightarrow> Quaternion option \<Rightarrow> Vector3 \<Rightarrow> ptr \<Rightarrow> Quaternion option \<Rightarrow> Vector3
     \<Rightarrow> btDiscreteDynamicsWorld \<Rightarrow> PhysicsController \<Rightarrow> error + ptr \<times> PhysicsController" where
  "spec_registration kind a rotA transA b rotB transB w s =
     (let native = next_addr s; wrapper = Suc (next_addr s)
      in Inr (Some wrapper,
              s\<lparr>heap := (heap s)(native \<mapsto> TypedConstraint kind a b,
                                   wrapper \<mapsto> PhysicsConstraint kind a rotA transA b rotB transB (Some native)),
                next_addr := Suc (Suc (next_addr s)),
                world := Some (w\<lparr>m_constraints := m_constraints w @ [Some native]\<rparr>),
                constraints := constraints s @ [Some wrapper]\<rparr>))"

subsection \<open>A run of the controller\<close>

text \<open>
  An initialized controller whose world holds two rigid bodies, the first with a motion
  state (the bodies are put there by the rigid-body class, outside this file); then a
  box shape and a fixed, a hinge and a socket constraint between the two bodies; then
  \<^verbatim>\<open>finalize\<close>.
\<close>

definition scenario_world :: PhysicsController where
  "scenario_world =
     (let s = initialize PhysicsController_new
      in s\<lparr>heap := (heap s)(4 \<mapsto> MotionState, 5 \<mapsto> RigidBody (Some 4), 6 \<mapsto> RigidBody None),
           next_addr := 7,
           world := map_option (\<lambda>w. w\<lparr>m_collisionObjects := [Some 5, Some 6]\<rparr>) (world s)\<rparr>)"

definition scenario_dynamicsWorld :: btDiscreteDynamicsWorld where
  "scenario_dynamicsWorld =
     \<lparr> m_dispatcher = Some 1, m_pairCache = Some 2, m_constraintSolver = Some 3,
       m_collisionConfiguration = Some 0, m_gravity = btVector3 0 (- 98 / 10) 0,
       m_constraints = [], m_collisionObjects = [Some 5, Some 6],
       m_localTime = 0, m_steps = 0, m_simulated = 0 \<rparr>"

definition scenario_constraints :: "error + PhysicsController" where
  "scenario_constraints =
     (let (box, s1) = getBox (Vector3 0 0 0) (Vector3 2 4 6) (btVector3 1 1 1) scenario_world
      in case createFixedConstraint (Some 5) (Quaternion 0 0 0 1) (Vector3 0 0 0)
                (Some 6) (Quaternion 0 0 0 1) (Vector3 0 1 0) s1 of
           Inl e \<Rightarrow> Inl e
         | Inr (c1, s2) \<Rightarrow>
             (case createHingeConstraint (Some 5) (Quaternion 0 0 0 1) (Vector3 0 0 0)
                     (Some 6) (Quaternion 0 0 0 1) (Vector3 0 1 0) s2 of
                Inl e \<Rightarrow> Inl e
              | Inr (c2, s3) \<Rightarrow>
                  (case createSocketConstraint (Some 5) (Vector3 0 0 0) (Some 6) (Vector3 0 1 0) s3 of
                     Inl e \<Rightarrow> Inl e
                   | Inr (c3, s4) \<Rightarrow> Inr s4)))"

definition scenario_finalized :: "error + PhysicsController" where
  "scenario_finalized = (case scenario_constraints of Inl e \<Rightarrow> Inl e | Inr s \<Rightarrow> finalize s)"

lemmas scenario_world_defs = scenario_world_def scenario_dynamicsWorld_def initialize_def
  PhysicsController_new_def new_def world_setGravity_def new_btDiscreteDynamicsWorld_def Let_def

lemmas teardown_defs = scenario_constraints_def delete_def getBox_def createFixedConstraint_def
  createHingeConstraint_def createSocketConstraint_def new_PhysicsConstraint_def addConstraint_def
  constraint_native_def world_addConstraint_def
  finalize_def removeConstraints_def getNumConstraints_def getConstraint_def
  world_removeConstraint_def array_remove_def deleteConstraints_loop.simps
  delete_PhysicsConstraint_def removeCollisionObjects_def getNumCollisionObjects_def
  getCollisionObject_def motionState_of_def world_removeCollisionObject_def
  deleteShapes_def deleteShapes_loop.simps deleteWorld_def numeral_2_eq_2 numeral_3_eq_3

section \<open>Auxiliary facts\<close>

lemma case_sum_Inr_E:
  assumes "(case x of Inl e \<Rightarrow> Inl e | Inr v \<Rightarrow> f v) = Inr r"
  obtains v where "x = Inr v" and "f v = Inr r"
  using assms by (cases x) auto

subsection \<open>The array container\<close>

lemma findLinearSearch_mem: "key \<in> set xs \<Longrightarrow> findLinearSearch key xs < length xs"
  by (induction xs) auto

lemma findLinearSearch_nth:
  "findLinearSearch key xs < length xs \<Longrightarrow> xs ! findLinearSearch key xs = key"
  by (induction xs) (auto split: if_splits)

text \<open>Removing the last element of an array leaves the elements before it, in order.\<close>

lemma array_remove_last: "array_remove x (xs @ [x]) = xs"
proof -
  let ?ys = "xs @ [x]"
  have lt: "findLinearSearch x ?ys < length ?ys"
    by (rule findLinearSearch_mem) simp
  have "?ys[findLinearSearch x ?ys := last ?ys] = ?ys"
    using findLinearSearch_nth [OF lt] by (metis list_update_id last_snoc)
  then show ?thesis
    using lt by (simp add: array_remove_def Let_def del: length_append)
qed

subsection \<open>Stepping\<close>

lemma subSteps_eq:
  "subSteps n f w = w\<lparr>m_steps := m_steps w + n, m_simulated := m_simulated w + real n * f\<rparr>"
  by (induction n arbitrary: w) (simp_all add: internalSingleStepSimulation_def algebra_simps)

lemma stepSimulation_frame:
  "stepSimulation t n f w =
     w\<lparr>m_localTime := m_localTime (stepSimulation t n f w),
       m_steps := m_steps (stepSimulation t n f w),
       m_simulated := m_simulated (stepSimulation t n f w)\<rparr>"
  by (simp add: stepSimulation_def Let_def subSteps_eq)

subsection \<open>Registration\<close>

lemma register_new_constraint:
  assumes "world s = Some w"
  shows "(let (constraint, s1) = new_PhysicsConstraint kind a rotA transA b rotB transB s
          in case addConstraint (Some constraint) s1 of
               Inl e \<Rightarrow> Inl e
             | Inr s2 \<Rightarrow> Inr (Some constraint, s2))
         = spec_registration kind a rotA transA b rotB transB w s"
  using assms
  by (simp add: new_PhysicsConstraint_def new_def addConstraint_def constraint_native_def
      world_addConstraint_def spec_registration_def Let_def)

lemma create_without_world:
  assumes "world s = None"
  shows "(let (constraint, s1) = new_PhysicsConstraint kind a rotA transA b rotB transB s
          in case addConstraint (Some constraint) s1 of
               Inl e \<Rightarrow> Inl e
             | Inr s2 \<Rightarrow> Inr (Some constraint, s2))
         = (Inl NullDereference :: error + ptr \<times> PhysicsController)"
  using assms
  by (simp add: new_PhysicsConstraint_def new_def addConstraint_def Let_def)

subsection \<open>The trace only grows during teardown\<close>

lemma delete_Inr:
  "delete p s = Inr s' \<Longrightarrow>
     s' = s\<lparr>heap := heap s', trace := trace s @ (case p of None \<Rightarrow> [] | Some a \<Rightarrow> [Deleted a])\<rparr>"
  by (auto simp: delete_def split: option.splits)

lemma delete_trace: "delete p s = Inr s' \<Longrightarrow> prefix (trace s) (trace s')"
  by (auto simp: delete_def split: option.splits)

lemma removeConstraints_loop_trace:
  "world s = Some w \<Longrightarrow> m_constraints w = cs \<Longrightarrow>
   removeConstraints_loop (length cs) s = Inr s' \<Longrightarrow>
   trace s' = trace s @ concat (map teardown_events (rev cs))"
proof (induction cs arbitrary: s w rule: rev_induct)
  case Nil
  then show ?case by simp
next
  case (snoc x xs)
  let ?s1 = "s\<lparr>world := Some (world_removeConstraint x w), trace := trace s @ [RemovedConstraint x]\<rparr>"
  have get: "getConstraint w (length xs) = Some x"
    using snoc.prems(2) by (simp add: getConstraint_def)
  from snoc.prems(1,3) get obtain s2 where
    del: "delete x ?s1 = Inr s2" and loop: "removeConstraints_loop (length xs) s2 = Inr s'"
    by (auto split: sum.splits)
  have s2: "s2 = ?s1\<lparr>heap := heap s2, trace := trace ?s1 @ (case x of None \<Rightarrow> [] | Some a \<Rightarrow> [Deleted a])\<rparr>"
    by (rule delete_Inr [OF del])
  have w2: "world s2 = Some (world_removeConstraint x w)"
    by (subst s2) simp
  have cs2: "m_constraints (world_removeConstraint x w) = xs"
    using snoc.prems(2) by (simp add: world_removeConstraint_def array_remove_last)
  have log2: "trace s2 = trace s @ teardown_events x"
    by (subst s2) (simp add: teardown_events_def)
  show ?case
    using snoc.IH [OF w2 cs2 loop] log2 by simp
qed

lemma deleteConstraints_loop_trace:
  "deleteConstraints_loop i s = Inr s' \<Longrightarrow> prefix (trace s) (trace s')"
proof (induction i s rule: deleteConstraints_loop.induct)
  case (1 i s)
  show ?case
  proof (cases "i < length (constraints s)")
    case True
    with "1.prems" obtain s1 where
      d: "delete_PhysicsConstraint (constraints s ! i) s = Inr s1"
      and l: "deleteConstraints_loop (Suc i) s1 = Inr s'"
      by (subst (asm) deleteConstraints_loop.simps) (auto split: sum.splits)
    have "prefix (trace s) (trace s1)"
      using d by (auto simp: delete_PhysicsConstraint_def intro: delete_trace)
    moreover have "prefix (trace s1) (trace s')"
      using "1.IH" [OF True d l] .
    ultimately show ?thesis by (rule prefix_order.trans)
  next
    case False
    with "1.prems" show ?thesis
      by (subst (asm) deleteConstraints_loop.simps) simp
  qed
qed

lemma removeCollisionObjects_loop_trace:
  "removeCollisionObjects_loop n s = Inr s' \<Longrightarrow> prefix (trace s) (trace s')"
proof (induction n arbitrary: s)
  case 0
  then show ?case by simp
next
  case (Suc n)
  from Suc.prems obtain w where w: "world s = Some w"
    by (cases "world s") simp_all
  from Suc.prems w obtain obj where obj: "getCollisionObject w n = Some obj"
    by (cases "getCollisionObject w n") simp_all
  from Suc.prems w obj obtain ms where ms: "motionState_of s obj = Inr ms"
    by (cases "motionState_of s obj") simp_all
  from Suc.prems w obj ms obtain s1 where d1: "delete ms s = Inr s1"
    by (cases "delete ms s") simp_all
  let ?s1 = "s1\<lparr>world := Some (world_removeCollisionObject obj w),
                  trace := trace s1 @ [RemovedCollisionObject obj]\<rparr>"
  from Suc.prems w obj ms d1 obtain s2 where d2: "delete obj ?s1 = Inr s2"
    by (cases "delete obj ?s1") simp_all
  from Suc.prems w obj ms d1 d2 have l: "removeCollisionObjects_loop n s2 = Inr s'"
    by simp
  have "prefix (trace s) (trace s1)" using d1 by (rule delete_trace)
  moreover have "prefix (trace s1) (trace ?s1)" by simp
  moreover have "prefix (trace ?s1) (trace s2)" using d2 by (rule delete_trace)
  moreover have "prefix (trace s2) (trace s')" using Suc.IH [OF l] .
  ultimately show ?case by (meson prefix_order.trans)
qed

lemma deleteShapes_loop_trace:
  "deleteShapes_loop i s = Inr s' \<Longrightarrow> prefix (trace s) (trace s')"
proof (induction i s rule: deleteShapes_loop.induct)
  case (1 i s)
  show ?case
  proof (cases "i < length (shapes s)")
    case True
    with "1.prems" obtain s1 where
      d: "delete (shapes s ! i) (s\<lparr>shapes := (shapes s)[i := None]\<rparr>) = Inr s1"
      and l: "deleteShapes_loop (Suc i) s1 = Inr s'"
      by (subst (asm) deleteShapes_loop.simps) (auto simp: Let_def split: sum.splits)
    have "prefix (trace s) (trace s1)"
      using delete_trace [OF d] by simp
    moreover have "prefix (trace s1) (trace s')"
      using "1.IH" [OF True refl d l] .
    ultimately show ?thesis by (rule prefix_order.trans)
  next
    case False
    with "1.prems" show ?thesis
      by (subst (asm) deleteShapes_loop.simps) simp
  qed
qed

lemma deleteWorld_trace:
  assumes "deleteWorld s = Inr s'"
  shows "prefix (trace s) (trace s')"
proof -
  let ?s0 = "(case world s of None \<Rightarrow> s | Some w \<Rightarrow> s\<lparr>trace := trace s @ [DeletedWorld]\<rparr>)\<lparr>world := None\<rparr>"
  have p0: "prefix (trace s) (trace ?s0)"
    by (cases "world s") simp_all
  from assms have a: "(case delete (solver ?s0) ?s0 of
           Inl e \<Rightarrow> Inl e
         | Inr s1 \<Rightarrow>
             (case delete (overlappingPairCache s1) (s1\<lparr>solver := None\<rparr>) of
                Inl e \<Rightarrow> Inl e
              | Inr s2 \<Rightarrow>
                  (case delete (dispatcher s2) (s2\<lparr>overlappingPairCache := None\<rparr>) of
                     Inl e \<Rightarrow> Inl e
                   | Inr s3 \<Rightarrow>
                       (case delete (collisionConfiguration s3) (s3\<lparr>dispatcher := None\<rparr>) of
                          Inl e \<Rightarrow> Inl e
                        | Inr s4 \<Rightarrow> Inr (s4\<lparr>collisionConfiguration := None\<rparr>))))) = Inr s'"
    by (simp only: deleteWorld_def Let_def)
  from a obtain s1 where d1: "delete (solver ?s0) ?s0 = Inr s1"
    and a1: "(case delete (overlappingPairCache s1) (s1\<lparr>solver := None\<rparr>) of
                Inl e \<Rightarrow> Inl e
              | Inr s2 \<Rightarrow>
                  (case delete (dispatcher s2) (s2\<lparr>overlappingPairCache := None\<rparr>) of
                     Inl e \<Rightarrow> Inl e
                   | Inr s3 \<Rightarrow>
                       (case delete (collisionConfiguration s3) (s3\<lparr>dispatcher := None\<rparr>) of
                          Inl e \<Rightarrow> Inl e
                        | Inr s4 \<Rightarrow> Inr (s4\<lparr>collisionConfiguration := None\<rparr>)))) = Inr s'"
    by (rule case_sum_Inr_E)
  from a1 obtain s2 where d2: "delete (overlappingPairCache s1) (s1\<lparr>solver := None\<rparr>) = Inr s2"
    and a2: "(case delete (dispatcher s2) (s2\<lparr>overlappingPairCache := None\<rparr>) of
                     Inl e \<Rightarrow> Inl e
                   | Inr s3 \<Rightarrow>
                       (case delete (collisionConfiguration s3) (s3\<lparr>dispatcher := None\<rparr>) of
                          Inl e \<Rightarrow> Inl e
                        | Inr s4 \<Rightarrow> Inr (s4\<lparr>collisionConfiguration := None\<rparr>))) = Inr s'"
    by (rule case_sum_Inr_E)
  from a2 obtain s3 where d3: "delete (dispatcher s2) (s2\<lparr>overlappingPairCache := None\<rparr>) = Inr s3"
    and a3: "(case delete (collisionConfiguration s3) (s3\<lparr>dispatcher := None\<rparr>) of
                          Inl e \<Rightarrow> Inl e
                        | Inr s4 \<Rightarrow> Inr (s4\<lparr>collisionConfiguration := None\<rparr>)) = Inr s'"
    by (rule case_sum_Inr_E)
  from a3 obtain s4 where d4: "delete (collisionConfiguration s3) (s3\<lparr>dispatcher := None\<rparr>) = Inr s4"
    and a4: "Inr (s4\<lparr>collisionConfiguration := None\<rparr>) = (Inr s' :: error + PhysicsController)"
    by (rule case_sum_Inr_E)
  have "prefix (trace ?s0) (trace s1)" using d1 by (rule delete_trace)
  moreover have "prefix (trace s1) (trace s2)" using delete_trace [OF d2] by simp
  moreover have "prefix (trace s2) (trace s3)" using delete_trace [OF d3] by simp
  moreover have "prefix (trace s3) (trace s4)" using delete_trace [OF d4] by simp
  moreover have "trace s' = trace s4" using a4 by auto
  ultimately show ?thesis using p0 by (metis prefix_order.trans)
qed

subsection \<open>What teardown leaves in the controller\<close>

lemma delete_constraints: "delete p s = Inr s' \<Longrightarrow> constraints s' = constraints s"
  by (auto simp: delete_def split: option.splits)

lemma delete_fields:
  "delete p s = Inr s' \<Longrightarrow>
     world s' = world s \<and> shapes s' = shapes s \<and> solver s' = solver s
     \<and> overlappingPairCache s' = overlappingPairCache s \<and> dispatcher s' = dispatcher s
     \<and> collisionConfiguration s' = collisionConfiguration s"
  by (auto simp: delete_def split: option.splits)

lemma removeConstraints_loop_constraints:
  "removeConstraints_loop n s = Inr s' \<Longrightarrow> constraints s' = constraints s"
proof (induction n arbitrary: s)
  case 0
  then show ?case by simp
next
  case (Suc n)
  from Suc.prems obtain w where w: "world s = Some w"
    by (cases "world s") simp_all
  from Suc.prems w obtain c where c: "getConstraint w n = Some c"
    by (cases "getConstraint w n") simp_all
  let ?s1 = "s\<lparr>world := Some (world_removeConstraint c w), trace := trace s @ [RemovedConstraint c]\<rparr>"
  from Suc.prems w c obtain s2 where d: "delete c ?s1 = Inr s2"
    by (cases "delete c ?s1") simp_all
  from Suc.prems w c d have l: "removeConstraints_loop n s2 = Inr s'"
    by simp
  show ?case
    using Suc.IH [OF l] delete_constraints [OF d] by simp
qed

lemma deleteConstraints_loop_constraints:
  "deleteConstraints_loop i s = Inr s' \<Longrightarrow> constraints s' = constraints s"
proof (induction i s rule: deleteConstraints_loop.induct)
  case (1 i s)
  show ?case
  proof (cases "i < length (constraints s)")
    case True
    with "1.prems" obtain s1 where
      d: "delete_PhysicsConstraint (constraints s ! i) s = Inr s1"
      and l: "deleteConstraints_loop (Suc i) s1 = Inr s'"
      by (subst (asm) deleteConstraints_loop.simps) (auto split: sum.splits)
    have "constraints s1 = constraints s"
      using d by (auto simp: delete_PhysicsConstraint_def intro: delete_constraints)
    with "1.IH" [OF True d l] show ?thesis by simp
  next
    case False
    with "1.prems" show ?thesis
      by (subst (asm) deleteConstraints_loop.simps) simp
  qed
qed

lemma removeCollisionObjects_loop_constraints:
  "removeCollisionObjects_loop n s = Inr s' \<Longrightarrow> constraints s' = constraints s"
proof (induction n arbitrary: s)
  case 0
  then show ?case by simp
next
  case (Suc n)
  from Suc.prems obtain w where w: "world s = Some w"
    by (cases "world s") simp_all
  from Suc.prems w obtain obj where obj: "getCollisionObject w n = Some obj"
    by (cases "getCollisionObject w n") simp_all
  from Suc.prems w obj obtain ms where ms: "motionState_of s obj = Inr ms"
    by (cases "motionState_of s obj") simp_all
  from Suc.prems w obj ms obtain s1 where d1: "delete ms s = Inr s1"
    by (cases "delete ms s") simp_all
  let ?s1 = "s1\<lparr>world := Some (world_removeCollisionObject obj w),
                  trace := trace s1 @ [RemovedCollisionObject obj]\<rparr>"
  from Suc.prems w obj ms d1 obtain s2 where d2: "delete obj ?s1 = Inr s2"
    by (cases "delete obj ?s1") simp_all
  from Suc.prems w obj ms d1 d2 have l: "removeCollisionObjects_loop n s2 = Inr s'"
    by simp
  show ?case
    using Suc.IH [OF l] delete_constraints [OF d1] delete_constraints [OF d2] by simp
qed

lemma deleteShapes_loop_constraints:
  "deleteShapes_loop i s = Inr s' \<Longrightarrow> constraints s' = constraints s"
proof (induction i s rule: deleteShapes_loop.induct)
  case (1 i s)
  show ?case
  proof (cases "i < length (shapes s)")
    case True
    with "1.prems" obtain s1 where
      d: "delete (shapes s ! i) (s\<lparr>shapes := (shapes s)[i := None]\<rparr>) = Inr s1"
      and l: "deleteShapes_loop (Suc i) s1 = Inr s'"
      by (subst (asm) deleteShapes_loop.simps) (auto simp: Let_def split: sum.splits)
    show ?thesis
      using "1.IH" [OF True refl d l] delete_constraints [OF d] by simp
  next
    case False
    with "1.prems" show ?thesis
      by (subst (asm) deleteShapes_loop.simps) simp
  qed
qed

lemma deleteShapes_post:
  assumes "deleteShapes s = Inr s'"
  shows "shapes s' = [] \<and> constraints s' = constraints s"
proof -
  from assms obtain s1 where q: "deleteShapes_loop 0 s = Inr s1"
    and e: "Inr (s1\<lparr>shapes := []\<rparr>) = (Inr s' :: error + PhysicsController)"
    unfolding deleteShapes_def by (rule case_sum_Inr_E)
  from e have "s' = s1\<lparr>shapes := []\<rparr>" by simp
  with deleteShapes_loop_constraints [OF q] show ?thesis by simp
qed

lemma deleteWorld_post:
  assumes "deleteWorld s = Inr s'"
  shows "world s' = None \<and> solver s' = None \<and> overlappingPairCache s' = None
       \<and> dispatcher s' = None \<and> collisionConfiguration s' = None
       \<and> shapes s' = shapes s \<and> constraints s' = constraints s"
proof -
  let ?s0 = "(case world s of None \<Rightarrow> s | Some w \<Rightarrow> s\<lparr>trace := trace s @ [DeletedWorld]\<rparr>)\<lparr>world := None\<rparr>"
  have p0: "shapes ?s0 = shapes s \<and> constraints ?s0 = constraints s \<and> world ?s0 = None"
    by (cases "world s") simp_all
  from assms have a: "(case delete (solver ?s0) ?s0 of
           Inl e \<Rightarrow> Inl e
         | Inr s1 \<Rightarrow>
             (case delete (overlappingPairCache s1) (s1\<lparr>solver := None\<rparr>) of
                Inl e \<Rightarrow> Inl e
              | Inr s2 \<Rightarrow>
                  (case delete (dispatcher s2) (s2\<lparr>overlappingPairCache := None\<rparr>) of
                     Inl e \<Rightarrow> Inl e
                   | Inr s3 \<Rightarrow>
                       (case delete (collisionConfiguration s3) (s3\<lparr>dispatcher := None\<rparr>) of
                          Inl e \<Rightarrow> Inl e
                        | Inr s4 \<Rightarrow> Inr (s4\<lparr>collisionConfiguration := None\<rparr>))))) = Inr s'"
    by (simp only: deleteWorld_def Let_def)
  from a obtain s1 where d1: "delete (solver ?s0) ?s0 = Inr s1"
    and a1: "(case delete (overlappingPairCache s1) (s1\<lparr>solver := None\<rparr>) of
                Inl e \<Rightarrow> Inl e
              | Inr s2 \<Rightarrow>
                  (case delete (dispatcher s2) (s2\<lparr>overlappingPairCache := None\<rparr>) of
                     Inl e \<Rightarrow> Inl e
                   | Inr s3 \<Rightarrow>
                       (case delete (collisionConfiguration s3) (s3\<lparr>dispatcher := None\<rparr>) of
                          Inl e \<Rightarrow> Inl e
                        | Inr s4 \<Rightarrow> Inr (s4\<lparr>collisionConfiguration := None\<rparr>)))) = Inr s'"
    by (rule case_sum_Inr_E)
  from a1 obtain s2 where d2: "delete (overlappingPairCache s1) (s1\<lparr>solver := None\<rparr>) = Inr s2"
    and a2: "(case delete (dispatcher s2) (s2\<lparr>overlappingPairCache := None\<rparr>) of
                     Inl e \<Rightarrow> Inl e
                   | Inr s3 \<Rightarrow>
                       (case delete (collisionConfiguration s3) (s3\<lparr>dispatcher := None\<rparr>) of
                          Inl e \<Rightarrow> Inl e
                        | Inr s4 \<Rightarrow> Inr (s4\<lparr>collisionConfiguration := None\<rparr>))) = Inr s'"
    by (rule case_sum_Inr_E)
  from a2 obtain s3 where d3: "delete (dispatcher s2) (s2\<lparr>overlappingPairCache := None\<rparr>) = Inr s3"
    and a3: "(case delete (collisionConfiguration s3) (s3\<lparr>dispatcher := None\<rparr>) of
                          Inl e \<Rightarrow> Inl e
                        | Inr s4 \<Rightarrow> Inr (s4\<lparr>collisionConfiguration := None\<rparr>)) = Inr s'"
    by (rule case_sum_Inr_E)
  from a3 obtain s4 where d4: "delete (collisionConfiguration s3) (s3\<lparr>dispatcher := None\<rparr>) = Inr s4"
    and a4: "Inr (s4\<lparr>collisionConfiguration := None\<rparr>) = (Inr s' :: error + PhysicsController)"
    by (rule case_sum_Inr_E)
  from a4 have e: "s' = s4\<lparr>collisionConfiguration := None\<rparr>" by simp
  show ?thesis
    using p0 delete_fields [OF d1] delete_fields [OF d2] delete_fields [OF d3] delete_fields [OF d4]
      delete_constraints [OF d1] delete_constraints [OF d2] delete_constraints [OF d3]
      delete_constraints [OF d4]
    by (simp add: e)
qed

lemma finalize_postcondition:
  assumes "finalize s = Inr s'"
  shows "world s' = None \<and> solver s' = None \<and> overlappingPairCache s' = None
       \<and> dispatcher s' = None \<and> collisionConfiguration s' = None
       \<and> shapes s' = [] \<and> constraints s' = constraints s"
proof -
  from assms obtain s1 where p1: "removeConstraints s = Inr s1"
    and a1: "(case deleteConstraints_loop 0 s1 of
             Inl e \<Rightarrow> Inl e
           | Inr s2 \<Rightarrow>
               (case removeCollisionObjects s2 of
                  Inl e \<Rightarrow> Inl e
                | Inr s3 \<Rightarrow>
                    (case deleteShapes s3 of
                       Inl e \<Rightarrow> Inl e
                     | Inr s4 \<Rightarrow> deleteWorld s4))) = Inr s'"
    unfolding finalize_def by (rule case_sum_Inr_E)
  from a1 obtain s2 where p2: "deleteConstraints_loop 0 s1 = Inr s2"
    and a2: "(case removeCollisionObjects s2 of
                  Inl e \<Rightarrow> Inl e
                | Inr s3 \<Rightarrow>
                    (case deleteShapes s3 of
                       Inl e \<Rightarrow> Inl e
                     | Inr s4 \<Rightarrow> deleteWorld s4)) = Inr s'"
    by (rule case_sum_Inr_E)
  from a2 obtain s3 where p3: "removeCollisionObjects s2 = Inr s3"
    and a3: "(case deleteShapes s3 of
                       Inl e \<Rightarrow> Inl e
                     | Inr s4 \<Rightarrow> deleteWorld s4) = Inr s'"
    by (rule case_sum_Inr_E)
  from a3 obtain s4 where p4: "deleteShapes s3 = Inr s4" and p5: "deleteWorld s4 = Inr s'"
    by (rule case_sum_Inr_E)
  have c1: "constraints s1 = constraints s"
  proof (cases "world s")
    case None
    with p1 show ?thesis by (simp add: removeConstraints_def)
  next
    case (Some w)
    with p1 show ?thesis
      by (simp add: removeConstraints_def removeConstraints_loop_constraints)
  qed
  have c2: "constraints s2 = constraints s1"
    using p2 by (rule deleteConstraints_loop_constraints)
  have c3: "constraints s3 = constraints s2"
  proof (cases "world s2")
    case None
    with p3 show ?thesis by (simp add: removeCollisionObjects_def)
  next
    case (Some w)
    with p3 show ?thesis
      by (simp add: removeCollisionObjects_def removeCollisionObjects_loop_constraints)
  qed
  show ?thesis
    using c1 c2 c3 deleteShapes_post [OF p4] deleteWorld_post [OF p5] by simp
qed

subsection \<open>The states of the first loop\<close>

lemma freed_Nil: "freed [] h = h"
  by (simp add: freed_def)

lemma freed_Cons_Some: "(freed ys h)(a := None) = freed (Some a # ys) h"
  by (rule ext) (simp add: freed_def)

lemma freed_Cons_None: "freed (None # ys) h = freed ys h"
  by (rule ext) (simp add: freed_def)

lemma torn_down_start: "world s = Some w \<Longrightarrow> m_constraints w = xs \<Longrightarrow> torn_down s w xs [] = s"
  by (simp add: torn_down_def freed_Nil)

text \<open>One iteration of the first loop.\<close>

lemma removeConstraints_iteration:
  assumes "removeConstraints_loop (Suc (length xs)) (torn_down s w (xs @ [y]) ys) = Inr s'"
  shows "delete y ((torn_down s w xs ys)\<lparr>trace := trace (torn_down s w xs ys) @ [RemovedConstraint y]\<rparr>)
           = Inr (torn_down s w xs (y # ys))
       \<and> removeConstraints_loop (length xs) (torn_down s w xs (y # ys)) = Inr s'"
proof -
  let ?b = "torn_down s w (xs @ [y]) ys"
  let ?m = "(torn_down s w xs ys)\<lparr>trace := trace (torn_down s w xs ys) @ [RemovedConstraint y]\<rparr>"
  have wb: "world ?b = Some (w\<lparr>m_constraints := xs @ [y]\<rparr>)"
    by (simp add: torn_down_def)
  have get: "getConstraint (w\<lparr>m_constraints := xs @ [y]\<rparr>) (length xs) = Some y"
    by (simp add: getConstraint_def)
  have mid: "?b\<lparr>world := Some (world_removeConstraint y (w\<lparr>m_constraints := xs @ [y]\<rparr>)),
                trace := trace ?b @ [RemovedConstraint y]\<rparr> = ?m"
    by (simp add: torn_down_def world_removeConstraint_def array_remove_last)
  from assms wb get mid have step:
    "(case delete y ?m of Inl e \<Rightarrow> Inl e | Inr s1 \<Rightarrow> removeConstraints_loop (length xs) s1) = Inr s'"
    by simp
  then obtain s2 where d: "delete y ?m = Inr s2" and l: "removeConstraints_loop (length xs) s2 = Inr s'"
    by (rule case_sum_Inr_E)
  have "s2 = torn_down s w xs (y # ys)"
  proof (cases y)
    case None
    with d show ?thesis
      by (simp add: delete_def torn_down_def teardown_events_def freed_Cons_None)
  next
    case (Some a)
    with d show ?thesis
      by (auto simp: delete_def torn_down_def teardown_events_def freed_Cons_Some
          split: option.splits)
  qed
  with d l show ?thesis by simp
qed

lemma removeConstraints_loop_split_gen:
  "removeConstraints_loop (length (xs @ ys)) (torn_down s w (xs @ ys) zs) = Inr s' \<Longrightarrow>
   removeConstraints_loop (length xs) (torn_down s w xs (ys @ zs)) = Inr s'"
proof (induction ys arbitrary: zs rule: rev_induct)
  case Nil
  then show ?case by simp
next
  case (snoc y ys)
  from snoc.prems have
    "removeConstraints_loop (Suc (length (xs @ ys))) (torn_down s w ((xs @ ys) @ [y]) zs) = Inr s'"
    by simp
  then have "removeConstraints_loop (length (xs @ ys)) (torn_down s w (xs @ ys) (y # zs)) = Inr s'"
    by (rule removeConstraints_iteration [THEN conjunct2])
  then have "removeConstraints_loop (length xs) (torn_down s w xs (ys @ y # zs)) = Inr s'"
    by (rule snoc.IH)
  then show ?case by simp
qed

lemma removeConstraints_split:
  assumes "world s = Some w" and "m_constraints w = xs @ ys" and "removeConstraints s = Inr s'"
  shows "removeConstraints_loop (length xs) (torn_down s w xs ys) = Inr s'"
proof -
  have "torn_down s w (xs @ ys) [] = s"
    using assms(1,2) by (rule torn_down_start)
  with assms have "removeConstraints_loop (length (xs @ ys)) (torn_down s w (xs @ ys) []) = Inr s'"
    by (simp add: removeConstraints_def getNumConstraints_def)
  then show ?thesis
    using removeConstraints_loop_split_gen [of xs ys s w "[]" s'] by simp
qed

lemma removeConstraints_result:
  assumes "world s = Some w" and "removeConstraints s = Inr s'"
  shows "s' = torn_down s w [] (m_constraints w)"
  using removeConstraints_split [OF assms(1) _ assms(2), of "[]" "m_constraints w"] by simp

text \<open>A constraint of the world that the loop has yet to reach is allocated.\<close>

lemma removeConstraints_loop_live:
  "world s = Some w \<Longrightarrow> m_constraints w = cs \<Longrightarrow>
   removeConstraints_loop (length cs) s = Inr s' \<Longrightarrow> list_all (live s) cs"
proof (induction cs arbitrary: s w rule: rev_induct)
  case Nil
  then show ?case by simp
next
  case (snoc x xs)
  let ?s1 = "s\<lparr>world := Some (world_removeConstraint x w), trace := trace s @ [RemovedConstraint x]\<rparr>"
  have get: "getConstraint w (length xs) = Some x"
    using snoc.prems(2) by (simp add: getConstraint_def)
  from snoc.prems(1,3) get have
    "(case delete x ?s1 of Inl e \<Rightarrow> Inl e | Inr s1 \<Rightarrow> removeConstraints_loop (length xs) s1) = Inr s'"
    by simp
  then obtain s2 where
    del: "delete x ?s1 = Inr s2" and loop: "removeConstraints_loop (length xs) s2 = Inr s'"
    by (rule case_sum_Inr_E)
  have w2: "world s2 = Some (world_removeConstraint x w)"
    using delete_fields [OF del] by simp
  have cs2: "m_constraints (world_removeConstraint x w) = xs"
    using snoc.prems(2) by (simp add: world_removeConstraint_def array_remove_last)
  have "list_all (live s2) xs"
    using snoc.IH [OF w2 cs2 loop] .
  moreover have "live s2 c \<Longrightarrow> live s c" for c
    using del by (cases c) (auto simp: live_def delete_def split: option.splits if_splits)
  ultimately have "list_all (live s) xs"
    by (simp add: list_all_iff)
  moreover have "live s x"
    using del by (cases x) (auto simp: live_def delete_def split: option.splits)
  ultimately show ?case by simp
qed

text \<open>What is freed stays freed.\<close>

lemma delete_freed: "delete p s = Inr s' \<Longrightarrow> heap s a = None \<Longrightarrow> heap s' a = None"
  by (auto simp: delete_def split: option.splits)

lemma deleteConstraints_loop_freed:
  "deleteConstraints_loop i s = Inr s' \<Longrightarrow> heap s a = None \<Longrightarrow> heap s' a = None"
proof (induction i s rule: deleteConstraints_loop.induct)
  case (1 i s)
  show ?case
  proof (cases "i < length (constraints s)")
    case True
    with "1.prems" obtain s1 where
      d: "delete_PhysicsConstraint (constraints s ! i) s = Inr s1"
      and l: "deleteConstraints_loop (Suc i) s1 = Inr s'"
      by (subst (asm) deleteConstraints_loop.simps) (auto split: sum.splits)
    have "heap s1 a = None"
      using d "1.prems"(2) by (auto simp: delete_PhysicsConstraint_def intro: delete_freed)
    with "1.IH" [OF True d l] show ?thesis by simp
  next
    case False
    with "1.prems" show ?thesis
      by (subst (asm) deleteConstraints_loop.simps) simp
  qed
qed

lemma removeCollisionObjects_loop_freed:
  "removeCollisionObjects_loop n s = Inr s' \<Longrightarrow> heap s a = None \<Longrightarrow> heap s' a = None"
proof (induction n arbitrary: s)
  case 0
  then show ?case by simp
next
  case (Suc n)
  from Suc.prems obtain w where w: "world s = Some w"
    by (cases "world s") simp_all
  from Suc.prems w obtain obj where obj: "getCollisionObject w n = Some obj"
    by (cases "getCollisionObject w n") simp_all
  from Suc.prems w obj obtain ms where ms: "motionState_of s obj = Inr ms"
    by (cases "motionState_of s obj") simp_all
  from Suc.prems w obj ms obtain s1 where d1: "delete ms s = Inr s1"
    by (cases "delete ms s") simp_all
  let ?s1 = "s1\<lparr>world := Some (world_removeCollisionObject obj w),
                  trace := trace s1 @ [RemovedCollisionObject obj]\<rparr>"
  from Suc.prems w obj ms d1 obtain s2 where d2: "delete obj ?s1 = Inr s2"
    by (cases "delete obj ?s1") simp_all
  from Suc.prems w obj ms d1 d2 have l: "removeCollisionObjects_loop n s2 = Inr s'"
    by simp
  have "heap s1 a = None" using d1 Suc.prems(2) by (rule delete_freed)
  then have "heap ?s1 a = None" by simp
  with d2 have "heap s2 a = None" by (rule delete_freed)
  with Suc.IH [OF l] show ?case .
qed

lemma deleteShapes_loop_freed:
  "deleteShapes_loop i s = Inr s' \<Longrightarrow> heap s a = None \<Longrightarrow> heap s' a = None"
proof (induction i s rule: deleteShapes_loop.induct)
  case (1 i s)
  show ?case
  proof (cases "i < length (shapes s)")
    case True
    with "1.prems" obtain s1 where
      d: "delete (shapes s ! i) (s\<lparr>shapes := (shapes s)[i := None]\<rparr>) = Inr s1"
      and l: "deleteShapes_loop (Suc i) s1 = Inr s'"
      by (subst (asm) deleteShapes_loop.simps) (auto simp: Let_def split: sum.splits)
    have "heap s1 a = None"
      using delete_freed [OF d] "1.prems"(2) by simp
    with "1.IH" [OF True refl d l] show ?thesis by simp
  next
    case False
    with "1.prems" show ?thesis
      by (subst (asm) deleteShapes_loop.simps) simp
  qed
qed

lemma deleteWorld_freed:
  assumes "deleteWorld s = Inr s'" and "heap s a = None"
  shows "heap s' a = None"
proof -
  let ?s0 = "(case world s of None \<Rightarrow> s | Some w \<Rightarrow> s\<lparr>trace := trace s @ [DeletedWorld]\<rparr>)\<lparr>world := None\<rparr>"
  have p0: "heap ?s0 a = None"
    using assms(2) by (cases "world s") simp_all
  from assms(1) have a: "(case delete (solver ?s0) ?s0 of
           Inl e \<Rightarrow> Inl e
         | Inr s1 \<Rightarrow>
             (case delete (overlappingPairCache s1) (s1\<lparr>solver := None\<rparr>) of
                Inl e \<Rightarrow> Inl e
              | Inr s2 \<Rightarrow>
                  (case delete (dispatcher s2) (s2\<lparr>overlappingPairCache := None\<rparr>) of
                     Inl e \<Rightarrow> Inl e
                   | Inr s3 \<Rightarrow>
                       (case delete (collisionConfiguration s3) (s3\<lparr>dispatcher := None\<rparr>) of
                          Inl e \<Rightarrow> Inl e
                        | Inr s4 \<Rightarrow> Inr (s4\<lparr>collisionConfiguration := None\<rparr>))))) = Inr s'"
    by (simp only: deleteWorld_def Let_def)
  from a obtain s1 where d1: "delete (solver ?s0) ?s0 = Inr s1"
    and a1: "(case delete (overlappingPairCache s1) (s1\<lparr>solver := None\<rparr>) of
                Inl e \<Rightarrow> Inl e
              | Inr s2 \<Rightarrow>
                  (case delete (dispatcher s2) (s2\<lparr>overlappingPairCache := None\<rparr>) of
                     Inl e \<Rightarrow> Inl e
                   | Inr s3 \<Rightarrow>
                       (case delete (collisionConfiguration s3) (s3\<lparr>dispatcher := None\<rparr>) of
                          Inl e \<Rightarrow> Inl e
                        | Inr s4 \<Rightarrow> Inr (s4\<lparr>collisionConfiguration := None\<rparr>)))) = Inr s'"
    by (rule case_sum_Inr_E)
  from a1 obtain s2 where d2: "delete (overlappingPairCache s1) (s1\<lparr>solver := None\<rparr>) = Inr s2"
    and a2: "(case delete (dispatcher s2) (s2\<lparr>overlappingPairCache := None\<rparr>) of
                     Inl e \<Rightarrow> Inl e
                   | Inr s3 \<Rightarrow>
                       (case delete (collisionConfiguration s3) (s3\<lparr>dispatcher := None\<rparr>) of
                          Inl e \<Rightarrow> Inl e
                        | Inr s4 \<Rightarrow> Inr (s4\<lparr>collisionConfiguration := None\<rparr>))) = Inr s'"
    by (rule case_sum_Inr_E)
  from a2 obtain s3 where d3: "delete (dispatcher s2) (s2\<lparr>overlappingPairCache := None\<rparr>) = Inr s3"
    and a3: "(case delete (collisionConfiguration s3) (s3\<lparr>dispatcher := None\<rparr>) of
                          Inl e \<Rightarrow> Inl e
                        | Inr s4 \<Rightarrow> Inr (s4\<lparr>collisionConfiguration := None\<rparr>)) = Inr s'"
    by (rule case_sum_Inr_E)
  from a3 obtain s4 where d4: "delete (collisionConfiguration s3) (s3\<lparr>dispatcher := None\<rparr>) = Inr s4"
    and a4: "Inr (s4\<lparr>collisionConfiguration := None\<rparr>) = (Inr s' :: error + PhysicsController)"
    by (rule case_sum_Inr_E)
  have "heap s1 a = None" using d1 p0 by (rule delete_freed)
  then have "heap s2 a = None" using delete_freed [OF d2] by simp
  then have "heap s3 a = None" using delete_freed [OF d3] by simp
  then have "heap s4 a = None" using delete_freed [OF d4] by simp
  moreover from a4 have "s' = s4\<lparr>collisionConfiguration := None\<rparr>" by simp
  ultimately show ?thesis by simp
qed

section \<open>Teardown\<close>

text \<open>
  C1. During \<^verbatim>\<open>finalize\<close> the world's constraints are torn down in reverse registration
  order, each one first removed from the world and then destroyed. Let \<^verbatim>\<open>finalize\<close> return
  from a state whose world holds the constraints \<open>xs @ y # ys\<close>, in the order in which
  they were added. Then the first loop passes through the state in which exactly the
  later constraints \<open>ys\<close> are gone from the world and from the store; in its next
  iteration it deletes \<open>y\<close> in a state where \<open>y\<close> is already out of the world's list and
  the later constraints, and only they, are freed; this leaves the state in which
  \<open>y # ys\<close> are gone and the earlier constraints \<open>xs\<close> are still registered and
  allocated. The loop ends with no constraint in the world and every native constraint
  freed, the trace of the whole of \<^verbatim>\<open>finalize\<close> begins with the removals and deletions in
  reverse order, and the native constraints are still freed when \<^verbatim>\<open>finalize\<close> returns.
  In the run of three constraints below the third is destroyed before the second, and
  the second before the first.
\<close>

theorem finalize_constraints_reverse_order:
  assumes "world s = Some w" and "m_constraints w = xs @ y # ys" and "finalize s = Inr s'"
  shows "\<exists>rest.
      removeConstraints_loop (Suc (length xs)) (torn_down s w (xs @ [y]) ys) = removeConstraints s
    \<and> delete y ((torn_down s w xs ys)\<lparr>trace := trace (torn_down s w xs ys) @ [RemovedConstraint y]\<rparr>)
        = Inr (torn_down s w xs (y # ys))
    \<and> list_all (live (torn_down s w xs (y # ys))) xs
    \<and> removeConstraints_loop (length xs) (torn_down s w xs (y # ys)) = removeConstraints s
    \<and> removeConstraints s = Inr (torn_down s w [] (m_constraints w))
    \<and> trace s' = trace (torn_down s w [] (m_constraints w)) @ rest
    \<and> list_all (\<lambda>c. deref s' c = None) (m_constraints w)"
proof -
  from assms(3) obtain s1 where p1: "removeConstraints s = Inr s1"
    and a1: "(case deleteConstraints_loop 0 s1 of
             Inl e \<Rightarrow> Inl e
           | Inr s2 \<Rightarrow>
               (case removeCollisionObjects s2 of
                  Inl e \<Rightarrow> Inl e
                | Inr s3 \<Rightarrow>
                    (case deleteShapes s3 of
                       Inl e \<Rightarrow> Inl e
                     | Inr s4 \<Rightarrow> deleteWorld s4))) = Inr s'"
    unfolding finalize_def by (rule case_sum_Inr_E)
  from a1 obtain s2 where p2: "deleteConstraints_loop 0 s1 = Inr s2"
    and a2: "(case removeCollisionObjects s2 of
                  Inl e \<Rightarrow> Inl e
                | Inr s3 \<Rightarrow>
                    (case deleteShapes s3 of
                       Inl e \<Rightarrow> Inl e
                     | Inr s4 \<Rightarrow> deleteWorld s4)) = Inr s'"
    by (rule case_sum_Inr_E)
  from a2 obtain s3 where p3: "removeCollisionObjects s2 = Inr s3"
    and a3: "(case deleteShapes s3 of
                       Inl e \<Rightarrow> Inl e
                     | Inr s4 \<Rightarrow> deleteWorld s4) = Inr s'"
    by (rule case_sum_Inr_E)
  from a3 obtain s4 where p4: "deleteShapes s3 = Inr s4" and p5: "deleteWorld s4 = Inr s'"
    by (rule case_sum_Inr_E)
  from p4 obtain s3' where q: "deleteShapes_loop 0 s3 = Inr s3'"
    and e: "Inr (s3'\<lparr>shapes := []\<rparr>) = (Inr s4 :: error + PhysicsController)"
    unfolding deleteShapes_def by (rule case_sum_Inr_E)
  from e have s4: "s4 = s3'\<lparr>shapes := []\<rparr>" by simp
  have s1: "s1 = torn_down s w [] (m_constraints w)"
    using assms(1) p1 by (rule removeConstraints_result)
  \<comment> \<open>the iteration that tears \<open>y\<close> down\<close>
  have before: "removeConstraints_loop (Suc (length xs)) (torn_down s w (xs @ [y]) ys) = Inr s1"
    using removeConstraints_split [OF assms(1) _ p1, of "xs @ [y]" ys] assms(2) by simp
  note iter = removeConstraints_iteration [OF before]
  have after: "removeConstraints_loop (length xs) (torn_down s w xs (y # ys)) = Inr s1"
    using iter by simp
  have wa: "world (torn_down s w xs (y # ys)) = Some (w\<lparr>m_constraints := xs\<rparr>)"
    by (simp add: torn_down_def)
  have ca: "m_constraints (w\<lparr>m_constraints := xs\<rparr>) = xs"
    by simp
  have alive: "list_all (live (torn_down s w xs (y # ys))) xs"
    using wa ca after by (rule removeConstraints_loop_live)
  \<comment> \<open>the later phases\<close>
  have l2: "prefix (trace s1) (trace s2)" using p2 by (rule deleteConstraints_loop_trace)
  have l3: "prefix (trace s2) (trace s3)"
  proof (cases "world s2")
    case None
    with p3 show ?thesis by (simp add: removeCollisionObjects_def)
  next
    case (Some w2)
    with p3 show ?thesis
      by (simp add: removeCollisionObjects_def removeCollisionObjects_loop_trace)
  qed
  have l4: "prefix (trace s3) (trace s4)"
    using deleteShapes_loop_trace [OF q] by (simp add: s4)
  have l5: "prefix (trace s4) (trace s')" using p5 by (rule deleteWorld_trace)
  from l2 l3 l4 l5 have "prefix (trace s1) (trace s')"
    by (meson prefix_order.trans)
  then obtain rest where rest: "trace s' = trace s1 @ rest"
    by (auto simp: prefix_def)
  have gone: "heap s' a = None" if "Some a \<in> set (m_constraints w)" for a
  proof -
    have "heap s1 a = None"
      using that by (simp add: s1 torn_down_def freed_def)
    then have "heap s2 a = None"
      using p2 by (auto intro: deleteConstraints_loop_freed)
    then have "heap s3 a = None"
      using p3 by (cases "world s2")
        (auto simp: removeCollisionObjects_def intro: removeCollisionObjects_loop_freed)
    then have "heap s3' a = None"
      using q by (auto intro: deleteShapes_loop_freed)
    then have "heap s4 a = None" by (simp add: s4)
    with p5 show ?thesis by (rule deleteWorld_freed)
  qed
  have all_gone: "list_all (\<lambda>c. deref s' c = None) (m_constraints w)"
    unfolding list_all_iff
  proof
    fix c assume c: "c \<in> set (m_constraints w)"
    show "deref s' c = None"
    proof (cases c)
      case None
      then show ?thesis by (simp add: deref_def)
    next
      case (Some a)
      with c gone [of a] show ?thesis by (simp add: deref_def)
    qed
  qed
  show ?thesis
    using before iter after alive all_gone rest by (auto simp: p1 s1)
qed

theorem finalize_constraints_reverse_order_witness:
  "world (projr scenario_constraints)
     = Some (scenario_dynamicsWorld\<lparr>m_constraints := [Some 8, Some 10, Some 12]\<rparr>)
   \<and> m_constraints (scenario_dynamicsWorld\<lparr>m_constraints := [Some 8, Some 10, Some 12]\<rparr>)
       = [Some 8] @ Some 10 # [Some 12]
   \<and> finalize (projr scenario_constraints) = Inr (projr (finalize (projr scenario_constraints)))
   \<and> removeConstraints (projr scenario_constraints)
       = Inr (torn_down (projr scenario_constraints)
                (scenario_dynamicsWorld\<lparr>m_constraints := [Some 8, Some 10, Some 12]\<rparr>)
                [] [Some 8, Some 10, Some 12])
   \<and> heap (torn_down (projr scenario_constraints)
                (scenario_dynamicsWorld\<lparr>m_constraints := [Some 8, Some 10, Some 12]\<rparr>)
                [Some 8] [Some 10, Some 12]) 8 \<noteq> None
   \<and> heap (torn_down (projr scenario_constraints)
                (scenario_dynamicsWorld\<lparr>m_constraints := [Some 8, Some 10, Some 12]\<rparr>)
                [Some 8] [Some 10, Some 12]) 10 = None
   \<and> (\<exists>rest. trace (projr (finalize (projr scenario_constraints)))
         = [RemovedConstraint (Some 12), Deleted 12,
            RemovedConstraint (Some 10), Deleted 10,
            RemovedConstraint (Some 8), Deleted 8] @ rest)
   \<and> heap (projr (finalize (projr scenario_constraints))) 8 = None
   \<and> heap (projr (finalize (projr scenario_constraints))) 10 = None
   \<and> heap (projr (finalize (projr scenario_constraints))) 12 = None"
proof -
  have w: "world (projr scenario_constraints)
             = Some (scenario_dynamicsWorld\<lparr>m_constraints := [Some 8, Some 10, Some 12]\<rparr>)"
    by (simp add: scenario_world_defs teardown_defs)
  have m: "m_constraints (scenario_dynamicsWorld\<lparr>m_constraints := [Some 8, Some 10, Some 12]\<rparr>)
             = [Some 8] @ Some 10 # [Some 12]"
    by simp
  have "\<not> isl (finalize (projr scenario_constraints))"
    by (simp add: scenario_world_defs teardown_defs)
  then have f: "finalize (projr scenario_constraints) = Inr (projr (finalize (projr scenario_constraints)))"
    by simp
  have t: "trace (projr scenario_constraints) = []"
    by (simp add: scenario_world_defs teardown_defs)
  show ?thesis
    using finalize_constraints_reverse_order [OF w m f] w f
    by (auto simp: t torn_down_def teardown_events_def live_def deref_def freed_def)
qed

text \<open>
  C2. After \<^verbatim>\<open>finalize\<close> every shape and constraint created since \<^verbatim>\<open>initialize\<close> has been
  destroyed, the shape registry and the constraint registry are empty, and the world,
  the solver, the broadphase cache, the dispatcher and the collision configuration are
  null. The code does all of this but one thing: it deletes the constraint wrappers and
  never clears their registry, as it does for the shapes (\<open>finalize_postcondition\<close>
  above: the constraint registry is the same list after \<^verbatim>\<open>finalize\<close> as before). After
  the run below, in which every shape, constraint and component has been freed, the
  constraint registry still holds the three wrappers, which are no longer in the store;
  initializing and finalizing again frees them a second time.
\<close>

theorem finalize_keeps_constraint_registry:
  "(case scenario_finalized of
      Inl e \<Rightarrow> False
    | Inr s' \<Rightarrow>
        constraints s' = [Some 9, Some 11, Some 13]
        \<and> heap s' 9 = None \<and> heap s' 11 = None \<and> heap s' 13 = None
        \<and> heap s' 8 = None \<and> heap s' 10 = None \<and> heap s' 12 = None \<and> heap s' 7 = None
        \<and> shapes s' = [] \<and> world s' = None \<and> solver s' = None
        \<and> overlappingPairCache s' = None \<and> dispatcher s' = None
        \<and> collisionConfiguration s' = None
        \<and> finalize (initialize s') = Inl InvalidPointer)"
  by (simp add: scenario_finalized_def scenario_world_defs teardown_defs)

section \<open>Lifecycle misuse\<close>

text \<open>
  C3, as the code has it. With no world live (before \<^verbatim>\<open>initialize\<close> or after \<^verbatim>\<open>finalize\<close>)
  there is no precondition check. \<^verbatim>\<open>update\<close> and the five constraint-creation operations
  dereference the null world pointer, which is the fault \<open>NullDereference\<close> here (for a
  creation, after the constraint has been constructed). \<^verbatim>\<open>getBox\<close> and \<^verbatim>\<open>getSphere\<close> never
  touch the world: they succeed, create the shape and register it.
\<close>

theorem no_world_operations:
  assumes "world s = None"
  shows "update elapsedTime s = Inl NullDereference
       \<and> createFixedConstraint a rotA transA b rotB transB s = Inl NullDereference
       \<and> createGenericConstraint a rotA transA b rotB transB s = Inl NullDereference
       \<and> createHingeConstraint a rotA transA b rotB transB s = Inl NullDereference
       \<and> createSocketConstraint a transA b transB s = Inl NullDereference
       \<and> createSpringConstraint a rotA transA b rotB transB s = Inl NullDereference
       \<and> fst (getBox minv maxv scale s) = Some (next_addr s)
       \<and> shapes (snd (getBox minv maxv scale s)) = shapes s @ [Some (next_addr s)]
       \<and> world (snd (getBox minv maxv scale s)) = None
       \<and> fst (getSphere radius scale s) = Some (next_addr s)
       \<and> shapes (snd (getSphere radius scale s)) = shapes s @ [Some (next_addr s)]
       \<and> world (snd (getSphere radius scale s)) = None"
proof -
  have "update elapsedTime s = Inl NullDereference"
    using assms by (simp add: update_def)
  moreover have "fst (getBox minv maxv scale s) = Some (next_addr s)
       \<and> shapes (snd (getBox minv maxv scale s)) = shapes s @ [Some (next_addr s)]
       \<and> world (snd (getBox minv maxv scale s)) = None"
    using assms by (simp add: getBox_def new_def Let_def)
  moreover have "fst (getSphere radius scale s) = Some (next_addr s)
       \<and> shapes (snd (getSphere radius scale s)) = shapes s @ [Some (next_addr s)]
       \<and> world (snd (getSphere radius scale s)) = None"
    using assms by (simp add: getSphere_def new_def Let_def)
  ultimately show ?thesis
    unfolding createFixedConstraint_def createGenericConstraint_def createHingeConstraint_def
      createSocketConstraint_def createSpringConstraint_def
    by (simp only: create_without_world [OF assms] simp_thms)
qed

theorem no_world_operations_witness:
  "world PhysicsController_new = None
   \<and> update 16 PhysicsController_new = Inl NullDereference
   \<and> createSocketConstraint (Some 5) (Vector3 0 0 0) (Some 6) (Vector3 0 1 0) PhysicsController_new
       = Inl NullDereference
   \<and> fst (getSphere 1 (btVector3 1 2 3) PhysicsController_new) = Some 0
   \<and> shapes (snd (getSphere 1 (btVector3 1 2 3) PhysicsController_new)) = [Some 0]"
proof -
  have h: "world PhysicsController_new = None"
    by (simp add: PhysicsController_new_def)
  have n: "next_addr PhysicsController_new = 0" "shapes PhysicsController_new = []"
    by (simp_all add: PhysicsController_new_def)
  show ?thesis
    using no_world_operations [OF h] h n by simp
qed

text \<open>
  C3 as stated (every shape-creation operation signals an error when no world is live)
  fails: on the freshly constructed controller, before \<^verbatim>\<open>initialize\<close>, \<^verbatim>\<open>getBox\<close> returns a
  box shape and registers it.
\<close>

theorem shape_creation_without_world_counterexample:
  "world PhysicsController_new = None
   \<and> getBox (Vector3 0 0 0) (Vector3 2 4 6) (btVector3 1 1 1) PhysicsController_new
       = (Some 0, PhysicsController_new\<lparr>heap := [0 \<mapsto> BoxShape (btVector3 1 2 3)], next_addr := 1,
                                         shapes := [Some 0]\<rparr>)"
  by (simp add: PhysicsController_new_def getBox_def new_def)

section \<open>Stepping the simulation\<close>

text \<open>
  C4, as the code has it. For every elapsed time in milliseconds, \<^verbatim>\<open>update\<close> on a live world
  returns, having handed the elapsed time divided by 1000, in seconds, to the world's
  stepping with a cap of 10 sub-steps. The world's clock is credited exactly that
  amount; the \<open>n\<close> whole steps of 1/60 s that the clock then holds are taken out of it
  (none if it holds less than one), and \<open>k\<close>, the smaller of \<open>n\<close> and 10, of them are
  performed. So at most 10 sub-steps are performed, and the simulated time advances by
  \<open>k / 60\<close> seconds, never by more than the clock held.
\<close>

theorem update_steps_world:
  assumes "world s = Some w"
  shows "(let clock = m_localTime w + real_of_int elapsedTime / 1000;
              n = (if 1 / 60 \<le> clock then \<lfloor>clock * 60\<rfloor> else 0);
              k = nat (min n 10)
          in update elapsedTime s
               = Inr (s\<lparr>world := Some (w\<lparr>m_localTime := clock - real_of_int n / 60,
                                          m_steps := m_steps w + k,
                                          m_simulated := m_simulated w + real k / 60\<rparr>)\<rparr>)
             \<and> 0 \<le> n \<and> k \<le> 10 \<and> real k / 60 \<le> max clock 0)"
proof -
  define clock where "clock = m_localTime w + real_of_int elapsedTime / 1000"
  define n where "n = (if 1 / 60 \<le> clock then \<lfloor>clock * 60\<rfloor> else 0)"
  define k where "k = nat (min n 10)"
  have num: "numSimulationSubSteps (real_of_int elapsedTime / 1000) (1 / 60) w = n"
    by (simp add: numSimulationSubSteps_def to_int_def n_def clock_def)
  have n0: "0 \<le> n"
    by (simp add: n_def)
  have n1: "n \<noteq> 0" if "1 / 60 \<le> clock"
  proof -
    from that have "1 \<le> clock * 60" by simp
    then have "\<lfloor>clock * 60\<rfloor> \<noteq> 0" by linarith
    with that show ?thesis unfolding n_def by (simp only: if_True simp_thms)
  qed
  have k10: "k \<le> 10"
    by (simp add: k_def)
  have kn: "real k \<le> max (clock * 60) 0"
  proof (cases "1 / 60 \<le> clock")
    case True
    then have "real_of_int n \<le> clock * 60" by (simp add: n_def)
    moreover have "real k \<le> real_of_int n" using n0 by (simp add: k_def)
    ultimately show ?thesis by simp
  next
    case False
    then show ?thesis by (simp add: n_def k_def)
  qed
  then have kc: "real k / 60 \<le> max clock 0"
    by (simp add: max_def split: if_splits)
  have step: "stepSimulation (real_of_int elapsedTime / 1000) 10 (1 / 60) w
                = w\<lparr>m_localTime := clock - real_of_int n / 60,
                     m_steps := m_steps w + k,
                     m_simulated := m_simulated w + real k / 60\<rparr>"
  proof (cases "n = 0")
    case True
    then show ?thesis
      by (simp add: stepSimulation_def num Let_def k_def clock_def)
  next
    case False
    then show ?thesis
      by (simp add: stepSimulation_def num Let_def subSteps_eq k_def clock_def min_def)
  qed
  show ?thesis
    using assms n0 k10 kc
    unfolding Let_def clock_def [symmetric] n_def [symmetric] k_def [symmetric]
    by (simp add: update_def step)
qed

theorem update_steps_world_witness:
  "world scenario_world = Some scenario_dynamicsWorld
   \<and> update 100 scenario_world
       = Inr (scenario_world\<lparr>world := Some (scenario_dynamicsWorld\<lparr>m_localTime := 0, m_steps := 6,
                                                                    m_simulated := 1 / 10\<rparr>)\<rparr>)"
proof -
  have h: "world scenario_world = Some scenario_dynamicsWorld"
    by (simp add: scenario_world_defs)
  have m: "m_localTime scenario_dynamicsWorld = 0" "m_steps scenario_dynamicsWorld = 0"
    "m_simulated scenario_dynamicsWorld = 0"
    by (simp_all add: scenario_dynamicsWorld_def)
  show ?thesis
    using update_steps_world [OF h, of 100] h m by (simp add: Let_def)
qed

text \<open>
  C4 as stated (the world advances by exactly the elapsed time divided by 1000) fails.
  On the world of the run, whose clock is at zero, 1000 ms advance the simulation by ten
  steps, 1/6 s, and the 50 remaining steps are dropped; 16 ms advance it by nothing and
  stay in the clock.
\<close>

theorem update_exact_advance_counterexample:
  "world scenario_world = Some scenario_dynamicsWorld
   \<and> m_simulated scenario_dynamicsWorld = 0
   \<and> update 1000 scenario_world
       = Inr (scenario_world\<lparr>world := Some (scenario_dynamicsWorld\<lparr>m_localTime := 0, m_steps := 10,
                                                                    m_simulated := 1 / 6\<rparr>)\<rparr>)
   \<and> (1 / 6 :: real) \<noteq> 1000 / 1000
   \<and> update 16 scenario_world
       = Inr (scenario_world\<lparr>world := Some (scenario_dynamicsWorld\<lparr>m_localTime := 2 / 125, m_steps := 0,
                                                                    m_simulated := 0\<rparr>)\<rparr>)
   \<and> (0 :: real) \<noteq> 16 / 1000"
proof -
  have h: "world scenario_world = Some scenario_dynamicsWorld"
    by (simp add: scenario_world_defs)
  have a: "stepSimulation (real_of_int 1000 * 0.001) 10 (1 / 60) scenario_dynamicsWorld
             = scenario_dynamicsWorld\<lparr>m_localTime := 0, m_steps := 10, m_simulated := 1 / 6\<rparr>"
    by (simp add: stepSimulation_def numSimulationSubSteps_def to_int_def Let_def subSteps_eq
        scenario_dynamicsWorld_def)
  have b: "stepSimulation (real_of_int 16 * 0.001) 10 (1 / 60) scenario_dynamicsWorld
             = scenario_dynamicsWorld\<lparr>m_localTime := 2 / 125, m_steps := 0, m_simulated := 0\<rparr>"
    by (simp add: stepSimulation_def numSimulationSubSteps_def to_int_def Let_def
        scenario_dynamicsWorld_def)
  show ?thesis
    using h a b by (simp add: update_def scenario_dynamicsWorld_def)
qed

text \<open>
  C10. For every elapsed time, \<^verbatim>\<open>update\<close> changes nothing but the world's simulation:
  when it returns, the new state is the old one with a stepped world in the place of
  the world, so the gravity, the shape registry, the constraint registry, the pointers
  to the four components and the store are unchanged and the world pointer is still
  live; the stepped world differs from the old one in its stepping clock and counters
  only. It fails, without a state, only when there is no world.
\<close>

theorem update_frame:
  "(case update elapsedTime s of
      Inl e \<Rightarrow> world s = None
    | Inr s' \<Rightarrow>
        (case (world s, world s') of
           (Some w, Some w') \<Rightarrow>
              s' = s\<lparr>world := Some w'\<rparr>
              \<and> gravity s' = gravity s \<and> shapes s' = shapes s \<and> constraints s' = constraints s
              \<and> collisionConfiguration s' = collisionConfiguration s \<and> dispatcher s' = dispatcher s
              \<and> overlappingPairCache s' = overlappingPairCache s \<and> solver s' = solver s
              \<and> w' = w\<lparr>m_localTime := m_localTime w', m_steps := m_steps w',
                        m_simulated := m_simulated w'\<rparr>
         | _ \<Rightarrow> False))"
  using stepSimulation_frame by (simp add: update_def split: option.splits)

section \<open>Gravity\<close>

text \<open>
  C5. The gravity defaults to (0, -9.8, 0). \<^verbatim>\<open>setGravity\<close> always stores the vector, and
  hands it to the world when there is one (a null world stays null). \<^verbatim>\<open>initialize\<close> creates
  a world whose gravity is the stored gravity, so a gravity set before \<^verbatim>\<open>initialize\<close> is
  the gravity of the new world.
\<close>

theorem gravity_default_set_initialize:
  "gravity PhysicsController_new = btVector3 0 (- 9.8) 0
   \<and> gravity (setGravity g s) = btVector3 (v3x g) (v3y g) (v3z g)
   \<and> world (setGravity g s)
       = map_option (world_setGravity (btVector3 (v3x g) (v3y g) (v3z g))) (world s)
   \<and> map_option m_gravity (world (setGravity g s))
       = map_option (\<lambda>w. btVector3 (v3x g) (v3y g) (v3z g)) (world s)
   \<and> map_option m_gravity (world (initialize s)) = Some (gravity s)
   \<and> gravity (initialize s) = gravity s
   \<and> map_option m_gravity (world (initialize (setGravity g PhysicsController_new)))
       = Some (btVector3 (v3x g) (v3y g) (v3z g))"
  by (simp add: PhysicsController_new_def setGravity_def initialize_def new_def Let_def
      world_setGravity_def new_btDiscreteDynamicsWorld_def split: option.splits)

section \<open>Shapes\<close>

text \<open>
  C6. For every \<open>min\<close>, \<open>max\<close> and \<open>scale\<close>, \<^verbatim>\<open>getBox\<close> creates a box shape whose half-extent
  on each axis is the scale on that axis times 0.5 times the absolute difference of
  \<open>max\<close> and \<open>min\<close> on that axis, appends it to the shape registry and returns it. With
  \<open>min\<close> = (0,0,0), \<open>max\<close> = (2,4,6) and \<open>scale\<close> = (1,1,1) the half-extents are (1,2,3).
\<close>

theorem getBox_half_extents:
  "(case getBox minv maxv scale s of
      (p, s') \<Rightarrow>
        p = Some (next_addr s)
        \<and> deref s' p = Some (BoxShape (btVector3 (btx scale * 0.5 * \<bar>v3x maxv - v3x minv\<bar>)
                                                 (bty scale * 0.5 * \<bar>v3y maxv - v3y minv\<bar>)
                                                 (btz scale * 0.5 * \<bar>v3z maxv - v3z minv\<bar>)))
        \<and> shapes s' = shapes s @ [p])
   \<and> (case getBox (Vector3 0 0 0) (Vector3 2 4 6) (btVector3 1 1 1) s of
        (p, s') \<Rightarrow> deref s' p = Some (BoxShape (btVector3 1 2 3)))"
  by (simp add: getBox_def new_def deref_def Let_def)

text \<open>
  C7. For every radius and scale, \<^verbatim>\<open>getSphere\<close> creates a sphere shape whose radius is
  the given radius times the maximum of the three scale components, appends it to the
  shape registry and returns it. With radius 1 and scale (1,2,3) the radius is 3.
\<close>

theorem getSphere_max_scale:
  "(case getSphere radius scale s of
      (p, s') \<Rightarrow>
        p = Some (next_addr s)
        \<and> deref s' p = Some (SphereShape (radius * Max {btx scale, bty scale, btz scale}))
        \<and> shapes s' = shapes s @ [p])
   \<and> (case getSphere 1 (btVector3 1 2 3) s of
        (p, s') \<Rightarrow> deref s' p = Some (SphereShape 3))"
  by (simp add: getSphere_def new_def deref_def Let_def max_def)

text \<open>
  C9. For every input, \<^verbatim>\<open>getTriangleMesh\<close> and \<^verbatim>\<open>getHeightfield\<close> return the null shape
  and leave the whole state, the shape registry included, as it was.
\<close>

theorem unsupported_shapes_return_null:
  "getTriangleMesh vertexData vertexPositionStride indexData indexFormat s = (None, s)
   \<and> getHeightfield data width height s = (None, s)"
  by (simp add: getTriangleMesh_def getHeightfield_def)

section \<open>Constraint creation\<close>

text \<open>
  C8. On a live world each of the five creation operations constructs the constraint
  of its kind from the two bodies and the offsets of each side, and registers it by the
  one shared step: the native constraint is appended to the world's constraints, the
  wrapper is appended to the controller's constraints, and the wrapper is returned.
\<close>

theorem create_constraint_registers:
  assumes "world s = Some w"
  shows "createFixedConstraint a rotA transA b rotB transB s
           = spec_registration Fixed a (Some rotA) transA b (Some rotB) transB w s
       \<and> createGenericConstraint a rotA transA b rotB transB s
           = spec_registration Generic a (Some rotA) transA b (Some rotB) transB w s
       \<and> createHingeConstraint a rotA transA b rotB transB s
           = spec_registration Hinge a (Some rotA) transA b (Some rotB) transB w s
       \<and> createSocketConstraint a transA b transB s
           = spec_registration Socket a None transA b None transB w s
       \<and> createSpringConstraint a rotA transA b rotB transB s
           = spec_registration Spring a (Some rotA) transA b (Some rotB) transB w s"
  unfolding createFixedConstraint_def createGenericConstraint_def createHingeConstraint_def
    createSocketConstraint_def createSpringConstraint_def
  by (simp only: register_new_constraint [OF assms])

theorem create_constraint_registers_witness:
  "world scenario_world = Some scenario_dynamicsWorld
   \<and> (case createSpringConstraint (Some 5) (Quaternion 0 0 0 1) (Vector3 0 0 0)
             (Some 6) (Quaternion 0 0 0 1) (Vector3 0 1 0) scenario_world of
        Inl e \<Rightarrow> False
      | Inr (p, s') \<Rightarrow>
          p = Some 8
          \<and> heap s' 7 = Some (TypedConstraint Spring (Some 5) (Some 6))
          \<and> heap s' 8 = Some (PhysicsConstraint Spring (Some 5) (Some (Quaternion 0 0 0 1)) (Vector3 0 0 0)
                                 (Some 6) (Some (Quaternion 0 0 0 1)) (Vector3 0 1 0) (Some 7))
          \<and> map_option m_constraints (world s') = Some [Some 7]
          \<and> constraints s' = [Some 8])"
proof -
  have h: "world scenario_world = Some scenario_dynamicsWorld"
    by (simp add: scenario_world_defs)
  have n: "next_addr scenario_world = 7" "constraints scenario_world = []"
    by (simp_all add: scenario_world_defs)
  have c: "m_constraints scenario_dynamicsWorld = []"
    by (simp add: scenario_dynamicsWorld_def)
  show ?thesis
    using create_constraint_registers [OF h, of "Some 5" "Quaternion 0 0 0 1" "Vector3 0 0 0"
        "Some 6" "Quaternion 0 0 0 1" "Vector3 0 1 0"] h n c
    by (simp add: spec_registration_def Let_def)
qed

end
